theory Spec2Isabelle
  imports Complex_Main
begin

section \<open>JavaScript values and strict equality\<close>

text \<open>
  The utilities of \<^verbatim>\<open>lang.ts\<close> compare arbitrary values with \<^verbatim>\<open>===\<close>. A value is
  one of the ECMAScript 5 types; an object (a function included) is known by its reference.
  A number is a double: only what \<^verbatim>\<open>===\<close> looks at is kept, namely whether it is NaN,
  an infinity, the negative zero, or a finite value (the positive zero is \<open>Finite 0\<close>).
\<close>

type_synonym ref = nat

datatype number = NaN | PosInfinity | NegInfinity | NegZero | Finite real

datatype jsvalue =
    JUndefined
  | JNull
  | JBoolean bool
  | JNumber number
  | JString string
  | JObject ref

text \<open>
  The Strict Equality Comparison of ECMAScript 5.1, section 11.9.6: values of different
  types are unequal; NaN is unequal to everything, itself included; the two zeros are
  equal; objects are equal when they are the same object.
\<close>

fun is_zero :: "number \<Rightarrow> bool" where
  "is_zero NegZero = True"
| "is_zero (Finite x) = (x = 0)"
| "is_zero _ = False"

fun number_equals :: "number \<Rightarrow> number \<Rightarrow> bool" where
  "number_equals NaN _ = False"
| "number_equals _ NaN = False"
| "number_equals x y = (x = y \<or> (is_zero x \<and> is_zero y))"

fun strict_equals :: "jsvalue \<Rightarrow> jsvalue \<Rightarrow> bool" where
  "strict_equals JUndefined JUndefined = True"
| "strict_equals JNull JNull = True"
| "strict_equals (JBoolean a) (JBoolean b) = (a = b)"
| "strict_equals (JNumber x) (JNumber y) = number_equals x y"
| "strict_equals (JString s) (JString t) = (s = t)"
| "strict_equals (JObject r) (JObject q) = (r = q)"
| "strict_equals _ _ = False"

text \<open>
  \<^verbatim>\<open>isIdentical\<close> (lang.ts, lines 164-168):
  \<^verbatim>\<open>return a === b || (a !== a && b !== b);\<close>
\<close>

definition isIdentical :: "jsvalue \<Rightarrow> jsvalue \<Rightarrow> bool" where
  "isIdentical a b = (strict_equals a b \<or> (\<not> strict_equals a a \<and> \<not> strict_equals b b))"


section \<open>Objects, properties and the shallow mixin\<close>

text \<open>
  An own property of an ordinary object (ECMAScript 5.1, section 8.6.1) is a data
  property, with a value and the attributes \<^verbatim>\<open>enumerable\<close> and \<^verbatim>\<open>writable\<close> (in this
  order), or an accessor property, with a getter, a setter (each may be missing) and the
  attribute \<^verbatim>\<open>enumerable\<close>. A getter or setter is a function, known by a reference that
  the host interprets. (\<^verbatim>\<open>lang.ts\<close> deletes and redefines no property, so the attribute
  \<^verbatim>\<open>configurable\<close> plays no part.)
\<close>

datatype property =
    Data jsvalue bool bool
  | Accessor "ref option" "ref option" bool

text \<open>
  An object has a prototype (\<^verbatim>\<open>null\<close> is \<open>None\<close>), the flag \<^verbatim>\<open>extensible\<close> and own
  properties in the order of their creation; the first entry of a key is the property.
  Property keys are strings. The heap is the list of all objects, an object's reference
  its index.
\<close>

record object =
  proto :: "ref option"
  extensible :: bool
  props :: "(string \<times> property) list"

type_synonym heap = "object list"

text \<open>
  What the functions of \<^verbatim>\<open>lang.ts\<close> modelled here throw: the RangeError of \<^verbatim>\<open>create\<close>
  (line 101), the TypeError of a rejected assignment, and whatever a getter or setter
  throws.
\<close>

datatype lang_error = RangeError string | TypeError | Thrown jsvalue


fun is_enumerable :: "property \<Rightarrow> bool" where
  "is_enumerable (Data v e w) = e"
| "is_enumerable (Accessor g s e) = e"

definition own_property :: "heap \<Rightarrow> ref \<Rightarrow> string \<Rightarrow> property option" where
  "own_property h r key = (if r < length h then map_of (props (h ! r)) key else None)"


definition enumerable_own :: "heap \<Rightarrow> ref \<Rightarrow> string \<Rightarrow> bool" where
  "enumerable_own h r key =
     (case own_property h r key of Some p \<Rightarrow> is_enumerable p | None \<Rightarrow> False)"

definition own_keys :: "heap \<Rightarrow> ref \<Rightarrow> string list" where
  "own_keys h r = (if r < length h then remdups (map fst (props (h ! r))) else [])"

text \<open>
  The prototype chain of an object, the object first. A chain of distinct objects is no
  longer than the heap, which bounds the walk.
\<close>

fun chain :: "nat \<Rightarrow> heap \<Rightarrow> ref \<Rightarrow> ref list" where
  "chain 0 h r = []"
| "chain (Suc n) h r =
     (if r < length h
      then r # (case proto (h ! r) of None \<Rightarrow> [] | Some p \<Rightarrow> chain n h p)
      else [])"

definition proto_chain :: "heap \<Rightarrow> ref \<Rightarrow> ref list" where
  "proto_chain h r = chain (length h) h r"



text \<open>
  The property a key names along a chain of objects (\<^verbatim>\<open>[[GetProperty]]\<close>, section
  8.12.2): that of the first object that has the key.
\<close>

fun GetProperty :: "heap \<Rightarrow> ref list \<Rightarrow> string \<Rightarrow> property option" where
  "GetProperty h [] key = None"
| "GetProperty h (r # rs) key =
     (case own_property h r key of Some p \<Rightarrow> Some p | None \<Rightarrow> GetProperty h rs key)"

text \<open>
  The read \<^verbatim>\<open>source[key]\<close> (line 45; \<^verbatim>\<open>[[Get]]\<close>, section 8.12.3): the value of a data
  property; the result of the getter of an accessor property, called with \<^verbatim>\<open>this\<close> the
  object that is read; \<^verbatim>\<open>undefined\<close> where there is no property or no getter.
  \<open>Get_data\<close> is the read that calls nothing.
\<close>

definition Get_data :: "heap \<Rightarrow> ref \<Rightarrow> string \<Rightarrow> jsvalue" where
  "Get_data h r key =
     (case GetProperty h (proto_chain h r) key of
        Some (Data v e w) \<Rightarrow> v
      | _ \<Rightarrow> JUndefined)"


text \<open>
  An own property is defined under a key: an entry with that key keeps its place and
  takes the new property; otherwise the property is added last.
\<close>

fun define_property :: "'k \<Rightarrow> 'v \<Rightarrow> ('k \<times> 'v) list \<Rightarrow> ('k \<times> 'v) list" where
  "define_property key v [] = [(key, v)]"
| "define_property key v ((k, w) # ps) =
     (if k = key then (k, v) # ps else (k, w) # define_property key v ps)"

definition set_own :: "heap \<Rightarrow> ref \<Rightarrow> string \<Rightarrow> property \<Rightarrow> heap" where
  "set_own h r key p = h[r := (h ! r)\<lparr> props := define_property key p (props (h ! r)) \<rparr>]"

























text \<open>
  A heap of three objects: a prototype, and two mixins that share the key \<^verbatim>\<open>x\<close>; the
  first mixin has a property that is not enumerable.
\<close>

definition ex_heap :: heap where
  "ex_heap =
     [\<lparr> proto = None, extensible = True, props = [(''p'', Data (JBoolean True) True True)] \<rparr>,
      \<lparr> proto = Some 0, extensible = True,
        props = [(''x'', Data (JString ''one'') True True), (''y'', Data JNull False True)] \<rparr>,
      \<lparr> proto = Some 1, extensible = True,
        props = [(''x'', Data (JString ''two'') True True),
                 (''z'', Data JUndefined True True)] \<rparr>]"






section \<open>The observer factory\<close>

text \<open>
  \<^verbatim>\<open>ObserveArgs\<close> (lang.ts, lines 216-221). The interface declares \<^verbatim>\<open>listener\<close> and
  \<^verbatim>\<open>target\<close> as required and the two flags as optional; at run time every field of the
  record a JavaScript caller passes can be absent, which is \<open>None\<close> here. A listener is
  known by an identifier of type \<open>'l\<close>, a target by its reference.
\<close>

record 'l ObserveArgs =
  listener :: "'l option"
  nextTurn :: "bool option"
  onlyReportObserved :: "bool option"
  target :: "ref option"

text \<open>The two classes of \<^verbatim>\<open>./observers/ObjectObserver\<close> that line 211 chooses between.\<close>

datatype Ctor = Es7Observer | Es5Observer

text \<open>A missing flag (\<^verbatim>\<open>undefined\<close>) is falsy.\<close>

fun truthy_flag :: "bool option \<Rightarrow> bool" where
  "truthy_flag None = False"
| "truthy_flag (Some b) = b"

text \<open>
  \<^verbatim>\<open>observe\<close> (lang.ts, lines 210-214). The feature test \<^verbatim>\<open>has\<close> of \<^verbatim>\<open>./has\<close> is the
  host's and is a parameter; so is \<open>new\<close>, the instantiation of a class of
  \<^verbatim>\<open>./observers/ObjectObserver\<close> on the configuration record, which either throws
  (\<open>Inl\<close>) or yields the observer. \<open>observe_Ctor\<close> is the local constant \<^verbatim>\<open>Ctor\<close> of
  line 211; \<^verbatim>\<open>&&\<close> does not call \<^verbatim>\<open>has\<close> when \<^verbatim>\<open>nextTurn\<close> is falsy.
\<close>

definition observe_Ctor :: "(string \<Rightarrow> bool) \<Rightarrow> 'l ObserveArgs \<Rightarrow> Ctor" where
  "observe_Ctor has kwArgs =
     (if truthy_flag (nextTurn kwArgs) \<and> has ''object-observe'' then Es7Observer else Es5Observer)"

definition observe ::
  "(string \<Rightarrow> bool) \<Rightarrow> (Ctor \<Rightarrow> 'l ObserveArgs \<Rightarrow> 'e + 'o) \<Rightarrow> 'l ObserveArgs \<Rightarrow> 'e + 'o" where
  "observe has new kwArgs = new (observe_Ctor has kwArgs) kwArgs"


section \<open>Handles\<close>

text \<open>
  A call of a JavaScript function on a world of type \<open>'s\<close> either returns or throws a
  value of type \<open>'e\<close>; both leave a world behind.
\<close>

datatype ('e, 's) completion = Normal 's | Throw 'e 's

fun world_of :: "('e, 's) completion \<Rightarrow> 's" where
  "world_of (Normal s) = s"
| "world_of (Throw e s) = s"

fun thrown :: "('e, 's) completion \<Rightarrow> 'e option" where
  "thrown (Normal s) = None"
| "thrown (Throw e s) = Some e"

text \<open>
  \<^verbatim>\<open>createHandle\<close> (lang.ts, lines 247-254). The handle is an object with the one
  property \<^verbatim>\<open>destroy\<close>. The function values this property can hold: the function of
  line 249, which closes over the destructor; the empty function of line 250; or any
  other function, known by an identifier of type \<open>'f\<close>, that somebody assigns to it.
\<close>

datatype 'f function_value = Destroy_initial | Destroy_noop | Foreign 'f

text \<open>
  A function that is called with \<^verbatim>\<open>this\<close> the handle gets the handle, which is the value
  of its \<^verbatim>\<open>destroy\<close> property, and the world; it returns or throws, and leaves behind
  the handle and the world, both as it made them. The destructor is such a function:
  its declared type is \<^verbatim>\<open>() => void\<close>, but line 251 calls it as
  \<^verbatim>\<open>destructor.call(this)\<close>, so that it can read and assign \<^verbatim>\<open>this.destroy\<close>.
\<close>

type_synonym ('e, 'f, 's) handle_function =
  "'f function_value \<Rightarrow> 's \<Rightarrow> ('e, 'f function_value \<times> 's) completion"

text \<open>
  The handle: the value of its property, and the variable \<^verbatim>\<open>destructor\<close> that the
  function of line 249 has captured.
\<close>

record ('e, 'f, 's) Handle =
  destroy :: "'f function_value"
  destructor :: "('e, 'f, 's) handle_function"

definition createHandle :: "('e, 'f, 's) handle_function \<Rightarrow> ('e, 'f, 's) Handle" where
  "createHandle f = \<lparr> destroy = Destroy_initial, destructor = f \<rparr>"

text \<open>
  What a function called on the handle leaves: the property as the function made it, also
  when it throws.
\<close>

fun settle ::
  "('e, 'f, 's) Handle \<Rightarrow> ('e, 'f function_value \<times> 's) completion
    \<Rightarrow> ('e, 'f, 's) Handle \<times> ('e, 's) completion" where
  "settle h (Normal (d, s)) = (h\<lparr> destroy := d \<rparr>, Normal s)"
| "settle h (Throw e (d, s)) = (h\<lparr> destroy := d \<rparr>, Throw e s)"

text \<open>
  The method call \<^verbatim>\<open>handle.destroy()\<close>: the function the property holds runs with
  \<^verbatim>\<open>this\<close> the handle. The function of line 249 first replaces the property by the empty
  function (line 250) and then calls the destructor with the same \<^verbatim>\<open>this\<close> (line 251);
  the empty function does nothing; a function from elsewhere does what the host, the
  parameter \<open>foreign\<close>, says.
\<close>

definition call_destroy ::
  "('f \<Rightarrow> ('e, 'f, 's) handle_function) \<Rightarrow> ('e, 'f, 's) Handle \<Rightarrow> 's
    \<Rightarrow> ('e, 'f, 's) Handle \<times> ('e, 's) completion" where
  "call_destroy foreign h s =
     (case destroy h of
        Destroy_initial \<Rightarrow> settle h (destructor h Destroy_noop s)
      | Destroy_noop \<Rightarrow> (h, Normal s)
      | Foreign g \<Rightarrow> settle h (foreign g (Foreign g) s))"

text \<open>
  \<open>n\<close> calls of \<^verbatim>\<open>handle.destroy()\<close> in a row by a caller that goes on after an
  exception: what each call threw, the handle and the world at the end.
\<close>

fun destroy_calls ::
  "('f \<Rightarrow> ('e, 'f, 's) handle_function) \<Rightarrow> nat \<Rightarrow> ('e, 'f, 's) Handle \<Rightarrow> 's
    \<Rightarrow> 'e option list \<times> ('e, 'f, 's) Handle \<times> 's" where
  "destroy_calls foreign 0 h s = ([], h, s)"
| "destroy_calls foreign (Suc n) h s =
     (case call_destroy foreign h s of
        (h', c) \<Rightarrow>
          (case destroy_calls foreign n h' (world_of c) of
             (es, h'', s'') \<Rightarrow> (thrown c # es, h'', s'')))"

text \<open>A destructor that also counts its own invocations, in a counter beside the world.\<close>

fun counting :: "('e, 'f, 's) handle_function \<Rightarrow> ('e, 'f, nat \<times> 's) handle_function" where
  "counting f d (c, s) =
     (case f d s of
        Normal (d', s') \<Rightarrow> Normal (d', (Suc c, s'))
      | Throw e (d', s') \<Rightarrow> Throw e (d', (Suc c, s')))"

text \<open>
  A destructor that puts the function of line 249 back, as in
  \<^verbatim>\<open>var first = handle.destroy\<close> with the destructor
  \<^verbatim>\<open>function () { this.destroy = first; }\<close>; and a host without other functions.
\<close>

definition rearm :: "(unit, unit, unit) handle_function" where
  "rearm d s = Normal (Destroy_initial, s)"

definition no_foreign :: "unit \<Rightarrow> ('e, unit, 's) handle_function" where
  "no_foreign g d s = Normal (d, s)"


section \<open>The Symbol shim\<close>

subsection \<open>Decimal numerals\<close>

text \<open>
  \<^verbatim>\<open>getSymbolName\<close> appends the counter \<^verbatim>\<open>postfix\<close> to the description. The counter
  is a natural number, and \<^verbatim>\<open>String\<close> of it is its decimal numeral; \<^verbatim>\<open>postfix || ''\<close>
  is the empty string when the counter is zero.
\<close>

definition digit :: "nat \<Rightarrow> char" where
  "digit d = ''0123456789'' ! d"

fun String_nat :: "nat \<Rightarrow> string" where
  "String_nat n = (if n < 10 then [digit n] else String_nat (n div 10) @ [digit (n mod 10)])"

declare String_nat.simps [simp del]

definition postfix_string :: "nat \<Rightarrow> string" where
  "postfix_string postfix = (if postfix = 0 then [] else String_nat postfix)"

text \<open>
  Reading a numeral back gives the number, so different counters give different
  postfixes; the loop of \<^verbatim>\<open>getSymbolName\<close> ends for this reason.
\<close>

fun digit_value :: "char \<Rightarrow> nat" where
  "digit_value c = of_char c - 48"

definition parse_nat :: "string \<Rightarrow> nat" where
  "parse_nat cs = foldl (\<lambda>a c. 10 * a + digit_value c) 0 cs"

lemma digit_value_digit: "d < 10 \<Longrightarrow> digit_value (digit d) = d"
proof -
  assume "d < 10"
  then have "d = 0 \<or> d = 1 \<or> d = 2 \<or> d = 3 \<or> d = 4 \<or> d = 5 \<or> d = 6 \<or> d = 7 \<or> d = 8 \<or> d = 9"
    by arith
  then show ?thesis
    by (elim disjE) (simp_all add: digit_def)
qed

lemma parse_nat_String_nat: "parse_nat (String_nat n) = n"
proof (induction n rule: String_nat.induct)
  case (1 n)
  show ?case
  proof (cases "n < 10")
    case True
    then show ?thesis
      by (subst String_nat.simps) (simp add: parse_nat_def digit_value_digit del: digit_value.simps)
  next
    case False
    have ih: "parse_nat (String_nat (n div 10)) = n div 10"
      by (rule 1) (rule False)
    have "parse_nat (String_nat (n div 10) @ [digit (n mod 10)]) =
        10 * parse_nat (String_nat (n div 10)) + digit_value (digit (n mod 10))"
      by (simp add: parse_nat_def del: digit_value.simps)
    also have "\<dots> = 10 * (n div 10) + n mod 10"
      by (simp only: ih digit_value_digit [of "n mod 10"] mod_less_divisor zero_less_numeral)
    also have "\<dots> = n"
      by (rule mult_div_mod_eq)
    finally show ?thesis
      using False by (subst String_nat.simps) (simp del: digit_value.simps)
  qed
qed

lemma String_nat_inj: "String_nat m = String_nat n \<Longrightarrow> m = n"
proof -
  assume "String_nat m = String_nat n"
  then have "parse_nat (String_nat m) = parse_nat (String_nat n)"
    by (rule arg_cong)
  then show "m = n"
    by (simp only: parse_nat_String_nat)
qed

lemma String_nat_nonempty: "String_nat n \<noteq> []"
  by (subst String_nat.simps) simp

lemma postfix_string_inj: "postfix_string p = postfix_string q \<Longrightarrow> p = q"
  using String_nat_nonempty [of p] String_nat_nonempty [of q]
  by (auto simp: postfix_string_def dest: String_nat_inj split: if_splits)


subsection \<open>The allocator of symbol names\<close>

text \<open>
  The loop of \<^verbatim>\<open>getSymbolName\<close> (Symbol.ts, lines 72-76):
  \<^verbatim>\<open>while (created[String(desc) + (postfix || '')]) { ++postfix; }\<close>
  The registry \<^verbatim>\<open>created\<close> (line 70) is made by \<^verbatim>\<open>Object.create(null)\<close>: it has no
  prototype, so a lookup finds the keys stored in it and nothing else. It is the list of
  its keys here, each of which holds \<^verbatim>\<open>true\<close>. The loop ends because the registry is
  finite: every turn leaves fewer of its keys of the form \<^verbatim>\<open>desc + postfix\<close> ahead.
\<close>

function getSymbolName_loop :: "string list \<Rightarrow> string \<Rightarrow> nat \<Rightarrow> nat" where
  "getSymbolName_loop created desc postfix =
     (if desc @ postfix_string postfix \<in> set created
      then getSymbolName_loop created desc (Suc postfix)
      else postfix)"
  by pat_completeness auto
termination
proof (relation "measure (\<lambda>(created, desc, postfix).
    card {k \<in> set created. \<exists>p \<ge> postfix. k = desc @ postfix_string p})")
  show "wf (measure (\<lambda>(created, desc, postfix).
    card {k \<in> set created. \<exists>p \<ge> postfix. k = desc @ postfix_string p}))"
    by simp
next
  fix created :: "string list" and desc :: string and postfix :: nat
  assume taken: "desc @ postfix_string postfix \<in> set created"
  let ?A = "{k \<in> set created. \<exists>p \<ge> Suc postfix. k = desc @ postfix_string p}"
  let ?B = "{k \<in> set created. \<exists>p \<ge> postfix. k = desc @ postfix_string p}"
  have "desc @ postfix_string postfix \<in> ?B"
    using taken by auto
  moreover have "desc @ postfix_string postfix \<notin> ?A"
    by (auto dest: postfix_string_inj)
  moreover have "?A \<subseteq> ?B"
    by auto (metis Suc_leD)
  ultimately have "?A \<subset> ?B"
    by blast
  then have "card ?A < card ?B"
    by (intro psubset_card_mono) simp_all
  then show "((created, desc, Suc postfix), (created, desc, postfix))
    \<in> measure (\<lambda>(created, desc, postfix).
        card {k \<in> set created. \<exists>p \<ge> postfix. k = desc @ postfix_string p})"
    by simp
qed

declare getSymbolName_loop.simps [simp del]

text \<open>
  The host and the state of the module. \<open>objPrototype\<close> holds the properties of
  \<^verbatim>\<open>Object.prototype\<close> that matter to the shim: a property of the host (a function, so
  a truthy value; configurable and not enumerable), or the accessor that line 80 defines,
  which has a setter and no getter and is neither enumerable nor configurable.
  \<open>globalSymbols\<close> holds the own properties of the object \<^verbatim>\<open>globalSymbols\<close> (line 44)
  in the order of their creation, each with its value and its \<^verbatim>\<open>enumerable\<close>
  attribute; that object is an object literal, so its prototype is
  \<^verbatim>\<open>Object.prototype\<close>. A symbol of the shim is an object with the two properties
  \<^verbatim>\<open>__description__\<close> and \<^verbatim>\<open>__name__\<close>; \<open>sym_id\<close> is its identity, the number of
  symbol objects created before it.
\<close>

datatype shim_error =
    TypeError_not_a_constructor
  | TypeError_not_a_symbol
  | TypeError_cannot_redefine

record symbol =
  sym_id :: nat
  sym_description :: string
  sym_name :: string

datatype shim_value = Undefined | Symbol_object symbol | Host_value string

datatype prototype_property = Host_property | Symbol_setter

record Shim =
  created :: "string list"
  objPrototype :: "(string \<times> prototype_property) list"
  globalSymbols :: "(string \<times> symbol \<times> bool) list"
  allocated :: nat

text \<open>
  \<^verbatim>\<open>defineProperty(objPrototype, name, { set: ... })\<close> (lines 80-84): a property of that
  name which is not configurable cannot be given another setter, and the call throws a
  TypeError; a configurable property of the host is replaced (\<open>define_property\<close> of the
  section on objects).
\<close>

definition defineProperty_setter ::
  "string \<Rightarrow> (string \<times> prototype_property) list
    \<Rightarrow> shim_error + (string \<times> prototype_property) list" where
  "defineProperty_setter name ps =
     (case map_of ps name of
        Some Symbol_setter \<Rightarrow> Inl TypeError_cannot_redefine
      | _ \<Rightarrow> Inr (define_property name Symbol_setter ps))"

text \<open>
  \<^verbatim>\<open>getSymbolName\<close> (lines 69-87). The description is a string at its only call site
  (line 104). The registry is written (line 78) before line 80 can throw.
\<close>

definition getSymbolName :: "string \<Rightarrow> Shim \<Rightarrow> (shim_error + string) \<times> Shim" where
  "getSymbolName desc s =
     (let postfix = getSymbolName_loop (created s) desc 0;
          desc' = desc @ postfix_string postfix;
          s' = s\<lparr> created := created s @ [desc'] \<rparr>;
          name = ''@@'' @ desc'
      in case defineProperty_setter name (objPrototype s') of
           Inl e \<Rightarrow> (Inl e, s')
         | Inr ps \<Rightarrow> (Inr name, s'\<lparr> objPrototype := ps \<rparr>))"

text \<open>Calls of \<^verbatim>\<open>getSymbolName\<close> one after the other, each result kept.\<close>

fun getSymbolNames :: "string list \<Rightarrow> Shim \<Rightarrow> (shim_error + string) list \<times> Shim" where
  "getSymbolNames [] s = ([], s)"
| "getSymbolNames (desc # descs) s =
     (case getSymbolName desc s of
        (r, s') \<Rightarrow> (case getSymbolNames descs s' of (rs, s'') \<Rightarrow> (r # rs, s'')))"

subsection \<open>The Symbol function\<close>

text \<open>
  \<^verbatim>\<open>Shim.Symbol\<close> (lines 96-106). It is called either as a plain function, where
  \<^verbatim>\<open>this\<close> is \<^verbatim>\<open>undefined\<close> or the global object and no instance of \<^verbatim>\<open>Symbol\<close>, or
  with \<^verbatim>\<open>new\<close>, where \<^verbatim>\<open>this\<close> is a new instance. The description is a string, a
  number or missing; \<^verbatim>\<open>String\<close> of a number is the host's and a parameter, which
  \<open>String_number\<close> below instantiates. Line 100 creates the object before line 104
  allocates the name. (\<^verbatim>\<open>InternalSymbol\<close>, lines 89-94, only lends its prototype to the
  objects; nothing calls it.)
\<close>

datatype call_kind = Call | Construct

datatype description_arg = D_undefined | D_string string | D_number number

fun String_description :: "(number \<Rightarrow> string) \<Rightarrow> description_arg \<Rightarrow> string" where
  "String_description ToString D_undefined = []"
| "String_description ToString (D_string x) = x"
| "String_description ToString (D_number n) = ToString n"

text \<open>
  The host's \<^verbatim>\<open>String\<close> on a number (ECMAScript 5.1, section 9.8.1): \<^verbatim>\<open>'NaN'\<close>,
  \<^verbatim>\<open>'Infinity'\<close> and \<^verbatim>\<open>'-Infinity'\<close>; \<^verbatim>\<open>'0'\<close> for both zeros; for a negative
  number the minus sign and the string of its absolute value; for a natural number below
  \<^verbatim>\<open>2^53\<close>, all of which are numbers of the host, its decimal numeral. In every other
  case, a number with a fraction or beyond that bound, the result is the shortest decimal
  that reads back as the same floating-point number; these digits are the host's, the
  parameter \<open>digits\<close>.
\<close>

definition String_positive :: "(real \<Rightarrow> string) \<Rightarrow> real \<Rightarrow> string" where
  "String_positive digits x =
     (if x = real (nat \<lfloor>x\<rfloor>) \<and> x < 2 ^ 53 then String_nat (nat \<lfloor>x\<rfloor>) else digits x)"

fun String_number :: "(real \<Rightarrow> string) \<Rightarrow> number \<Rightarrow> string" where
  "String_number digits NaN = ''NaN''"
| "String_number digits PosInfinity = ''Infinity''"
| "String_number digits NegInfinity = ''-Infinity''"
| "String_number digits NegZero = ''0''"
| "String_number digits (Finite x) =
     (if x < 0 then CHR ''-'' # String_positive digits (- x) else String_positive digits x)"

definition Symbol ::
  "(number \<Rightarrow> string) \<Rightarrow> call_kind \<Rightarrow> description_arg \<Rightarrow> Shim
    \<Rightarrow> (shim_error + symbol) \<times> Shim" where
  "Symbol ToString kind description s =
     (if kind = Construct then (Inl TypeError_not_a_constructor, s)
      else
        (let symb = allocated s;
             s0 = s\<lparr> allocated := Suc (allocated s) \<rparr>;
             description' = String_description ToString description
         in case getSymbolName description' s0 of
              (Inl e, s') \<Rightarrow> (Inl e, s')
            | (Inr name, s') \<Rightarrow>
                (Inr \<lparr> sym_id = symb, sym_description = description', sym_name = name \<rparr>, s')))"

text \<open>
  \<^verbatim>\<open>isSymbol\<close> (lines 113-115) and \<^verbatim>\<open>validateSymbol\<close> (lines 122-127). A symbol of the
  shim inherits the property \<^verbatim>\<open>@@toStringTag\<close> with the value \<^verbatim>\<open>'Symbol'\<close> from
  \<^verbatim>\<open>InternalSymbol.prototype\<close> (line 175). A function of the host finds that key on
  \<^verbatim>\<open>Object.prototype\<close> only, as the accessor without getter, and reads
  \<^verbatim>\<open>undefined\<close>.
\<close>

fun isSymbol :: "shim_value \<Rightarrow> bool" where
  "isSymbol Undefined = False"
| "isSymbol (Symbol_object symb) = True"
| "isSymbol (Host_value key) = False"

definition validateSymbol :: "shim_value \<Rightarrow> shim_error + shim_value" where
  "validateSymbol v = (if \<not> isSymbol v then Inl TypeError_not_a_symbol else Inr v)"

subsection \<open>The registry of global symbols\<close>

text \<open>
  The read \<^verbatim>\<open>globalSymbols[key]\<close> (lines 132, 133): an own property, or else what
  \<^verbatim>\<open>Object.prototype\<close> has under that key; an accessor without getter reads as
  \<^verbatim>\<open>undefined\<close>.
\<close>

definition get_globalSymbols :: "Shim \<Rightarrow> string \<Rightarrow> shim_value" where
  "get_globalSymbols s key =
     (case map_of (globalSymbols s) key of
        Some (symb, enumerable) \<Rightarrow> Symbol_object symb
      | None \<Rightarrow>
          (case map_of (objPrototype s) key of
             Some Host_property \<Rightarrow> Host_value key
           | Some Symbol_setter \<Rightarrow> Undefined
           | None \<Rightarrow> Undefined))"

text \<open>
  The write \<^verbatim>\<open>globalSymbols[key] = ...\<close> (line 135). Without an own property of that
  key, an accessor of \<^verbatim>\<open>Object.prototype\<close> under the key takes the write: its setter
  (lines 81-83) runs with \<^verbatim>\<open>this\<close> the object \<^verbatim>\<open>globalSymbols\<close> and defines the own
  property by \<^verbatim>\<open>getValueDescriptor(value)\<close>, whose \<^verbatim>\<open>enumerable\<close> is false (line 60).
  In every other case the write makes an ordinary, enumerable own property.
\<close>

definition set_globalSymbols :: "string \<Rightarrow> symbol \<Rightarrow> Shim \<Rightarrow> Shim" where
  "set_globalSymbols key symb s =
     (case map_of (globalSymbols s) key of
        Some (old, enumerable) \<Rightarrow>
          s\<lparr> globalSymbols := define_property key (symb, enumerable) (globalSymbols s) \<rparr>
      | None \<Rightarrow>
          (case map_of (objPrototype s) key of
             Some Symbol_setter \<Rightarrow> s\<lparr> globalSymbols := globalSymbols s @ [(key, symb, False)] \<rparr>
           | _ \<Rightarrow> s\<lparr> globalSymbols := globalSymbols s @ [(key, symb, True)] \<rparr>))"

fun truthy :: "shim_value \<Rightarrow> bool" where
  "truthy Undefined = False"
| "truthy (Symbol_object symb) = True"
| "truthy (Host_value key) = True"

text \<open>\<^verbatim>\<open>Symbol.for\<close> (lines 131-136).\<close>

definition Symbol_for ::
  "(number \<Rightarrow> string) \<Rightarrow> string \<Rightarrow> Shim \<Rightarrow> (shim_error + shim_value) \<times> Shim" where
  "Symbol_for ToString key s =
     (if truthy (get_globalSymbols s key) then (Inr (get_globalSymbols s key), s)
      else
        (case Symbol ToString Call (D_string key) s of
           (Inl e, s') \<Rightarrow> (Inl e, s')
         | (Inr symb, s') \<Rightarrow> (Inr (Symbol_object symb), set_globalSymbols key symb s')))"

text \<open>
  \<^verbatim>\<open>Symbol.keyFor\<close> (lines 137-145). \<^verbatim>\<open>for (key in globalSymbols)\<close> visits the
  enumerable own properties (\<^verbatim>\<open>Object.prototype\<close> has no enumerable property to add);
  \<^verbatim>\<open>===\<close> on objects is identity; a loop that finds nothing falls off the end of the
  function, which then returns \<^verbatim>\<open>undefined\<close>, here \<open>None\<close>.
\<close>

fun same_value :: "shim_value \<Rightarrow> shim_value \<Rightarrow> bool" where
  "same_value Undefined Undefined = True"
| "same_value (Symbol_object a) (Symbol_object b) = (sym_id a = sym_id b)"
| "same_value (Host_value a) (Host_value b) = (a = b)"
| "same_value _ _ = False"

fun keyFor_loop :: "(string \<times> symbol \<times> bool) list \<Rightarrow> shim_value \<Rightarrow> string option" where
  "keyFor_loop [] v = None"
| "keyFor_loop ((key, symb, enumerable) # rest) v =
     (if enumerable \<and> same_value (Symbol_object symb) v then Some key else keyFor_loop rest v)"

definition Symbol_keyFor :: "shim_value \<Rightarrow> Shim \<Rightarrow> shim_error + string option" where
  "Symbol_keyFor v s =
     (case validateSymbol v of
        Inl e \<Rightarrow> Inl e
      | Inr w \<Rightarrow> Inr (keyFor_loop (globalSymbols s) w))"

text \<open>
  The host before the module is loaded: \<^verbatim>\<open>Object.prototype\<close> with the properties of
  ECMAScript 5.1, section 15.2.4, and nothing registered. Loading the module creates the
  eleven well-known symbols (lines 146-156).
\<close>

definition Shim_host :: Shim where
  "Shim_host =
     \<lparr> created = [],
       objPrototype = map (\<lambda>key. (key, Host_property))
         [''constructor'', ''toString'', ''toLocaleString'', ''valueOf'', ''hasOwnProperty'',
          ''isPrototypeOf'', ''propertyIsEnumerable''],
       globalSymbols = [],
       allocated = 0 \<rparr>"

definition well_known :: "string list" where
  "well_known = [''hasInstance'', ''isConcatSpreadable'', ''iterator'', ''match'', ''replace'',
     ''search'', ''species'', ''split'', ''toPrimitive'', ''toStringTag'', ''unscopables'']"

definition Shim_loaded :: "(number \<Rightarrow> string) \<Rightarrow> Shim" where
  "Shim_loaded ToString =
     fold (\<lambda>key s. snd (Symbol ToString Call (D_string key) s)) well_known Shim_host"

text \<open>
  What holds of every state the module reaches: an accessor of line 80 on
  \<^verbatim>\<open>Object.prototype\<close> has the name \<^verbatim>\<open>'@@'\<close> followed by a key of the registry.
\<close>

definition Shim_inv :: "Shim \<Rightarrow> bool" where
  "Shim_inv s =
     list_all (\<lambda>(name, p). p = Symbol_setter \<longrightarrow> name \<in> set (map ((@) ''@@'') (created s)))
       (objPrototype s)"

text \<open>
  And of the registry of global symbols: its symbols are different objects, created
  before now, and a property of it that is not enumerable has its key among the
  accessors of \<^verbatim>\<open>Object.prototype\<close>.
\<close>

definition registry_inv :: "Shim \<Rightarrow> bool" where
  "registry_inv s =
     (distinct (map (\<lambda>g. sym_id (fst (snd g))) (globalSymbols s))
      \<and> list_all (\<lambda>(key, symb, enumerable).
            sym_id symb < allocated s
            \<and> (enumerable \<or> map_of (objPrototype s) key = Some Symbol_setter))
          (globalSymbols s))"


section \<open>The observers\<close>

text \<open>
  The classes \<^verbatim>\<open>Es5Observer\<close> and \<^verbatim>\<open>Es7Observer\<close> of \<^verbatim>\<open>./observers/ObjectObserver\<close>
  are not among the sources. The definitions of this section follow the specification
  instead: its dirty-check observer (section 4.2) is \<^verbatim>\<open>Es5Observer\<close>, its native
  observer (section 4.3) is \<^verbatim>\<open>Es7Observer\<close>. The target lives in the heap of the
  section on objects.
\<close>

text \<open>
  Modelled from the spec: the event type and the event record of
  \<^verbatim>\<open>./observers/interfaces\<close> are missing. Section 3: a PropertyEvent is
  \<^verbatim>\<open>{ target, name, type }\<close> with \<^verbatim>\<open>type\<close> one of add, update, delete.
\<close>

datatype event_type = Add | Update | Delete

record PropertyEvent =
  ev_target :: ref
  ev_name :: string
  ev_type :: event_type

text \<open>
  Modelled from the spec: the snapshot of the missing class \<^verbatim>\<open>Es5Observer\<close>. Section 3:
  a mapping from property key to last-seen value, in insertion order; section 4.2: taken
  of the target's own enumerable properties. The value is that of a data property; the
  snapshot calls no getter, and an accessor property reads as \<^verbatim>\<open>undefined\<close>.
\<close>

type_synonym Snapshot = "(string \<times> jsvalue) list"

definition snapshot_of :: "heap \<Rightarrow> ref \<Rightarrow> Snapshot" where
  "snapshot_of h t =
     map (\<lambda>key. (key, Get_data h t key)) [key \<leftarrow> own_keys h t. enumerable_own h t key]"

text \<open>
  Modelled from the spec: the diff of the missing class \<^verbatim>\<open>Es5Observer\<close>. Section 4.2: a
  key present in the new snapshot and absent in the old one is an add; a key present in
  both whose values are not identical is an update, where identical is the identity rule
  of \<^verbatim>\<open>isIdentical\<close>; a key present in the old snapshot and absent in the new one is a
  delete. Section 5: the events stand in the order in which the pass meets the keys, here
  the keys of the new snapshot and then the deleted keys of the old one.
\<close>

definition diff_key :: "ref \<Rightarrow> Snapshot \<Rightarrow> Snapshot \<Rightarrow> string \<Rightarrow> PropertyEvent list" where
  "diff_key t old new key =
     (case (map_of old key, map_of new key) of
        (None, Some v) \<Rightarrow> [\<lparr> ev_target = t, ev_name = key, ev_type = Add \<rparr>]
      | (Some w, Some v) \<Rightarrow>
          (if isIdentical w v then [] else [\<lparr> ev_target = t, ev_name = key, ev_type = Update \<rparr>])
      | (Some w, None) \<Rightarrow> [\<lparr> ev_target = t, ev_name = key, ev_type = Delete \<rparr>]
      | (None, None) \<Rightarrow> [])"

definition diff :: "ref \<Rightarrow> Snapshot \<Rightarrow> Snapshot \<Rightarrow> PropertyEvent list" where
  "diff t old new =
     concat (map (diff_key t old new) (remdups (map fst new)))
     @ concat (map (diff_key t old new) [key \<leftarrow> remdups (map fst old). map_of new key = None])"

text \<open>
  Modelled from the spec: the state of the missing class \<^verbatim>\<open>Es5Observer\<close> (section 4.2):
  its target and listener, the key set fixed at creation when \<^verbatim>\<open>onlyReportObserved\<close> is
  set, the snapshot of the last check, and the flag that \<^verbatim>\<open>destroy\<close> sets. The missing
  class \<^verbatim>\<open>Es7Observer\<close> (section 4.3) is a subscription to the host's notifications.
\<close>

record 'l DirtyCheckObserver =
  dc_target :: ref
  dc_listener :: 'l
  dc_observed :: "string list option"
  dc_snapshot :: Snapshot
  dc_destroyed :: bool

record 'l NativeChangeObserver =
  nc_target :: ref
  nc_listener :: 'l
  nc_subscribed :: bool

datatype 'l Observer = DirtyCheck "'l DirtyCheckObserver" | NativeChange "'l NativeChangeObserver"

text \<open>
  Modelled from the spec: the constructors of the missing classes. Section 4.2: on
  creation the dirty-check observer captures the snapshot of the target's own enumerable
  properties, and the key set when \<^verbatim>\<open>onlyReportObserved\<close> is set. Section 7: a
  configuration without \<^verbatim>\<open>target\<close> or without \<^verbatim>\<open>listener\<close> fails at creation with an
  error that says so, and no observer is created.
\<close>

datatype observe_error = Missing_target | Missing_listener

definition new_DirtyCheckObserver :: "heap \<Rightarrow> ref \<Rightarrow> 'l \<Rightarrow> bool \<Rightarrow> 'l DirtyCheckObserver" where
  "new_DirtyCheckObserver h t l only =
     \<lparr> dc_target = t,
       dc_listener = l,
       dc_observed = (if only then Some (map fst (snapshot_of h t)) else None),
       dc_snapshot = snapshot_of h t,
       dc_destroyed = False \<rparr>"

definition new_Observer :: "heap \<Rightarrow> Ctor \<Rightarrow> 'l ObserveArgs \<Rightarrow> observe_error + 'l Observer" where
  "new_Observer h ctor kwArgs =
     (case target kwArgs of
        None \<Rightarrow> Inl Missing_target
      | Some t \<Rightarrow>
          (case listener kwArgs of
             None \<Rightarrow> Inl Missing_listener
           | Some l \<Rightarrow>
               (case ctor of
                  Es5Observer \<Rightarrow>
                    Inr (DirtyCheck
                      (new_DirtyCheckObserver h t l (truthy_flag (onlyReportObserved kwArgs))))
                | Es7Observer \<Rightarrow>
                    Inr (NativeChange \<lparr> nc_target = t, nc_listener = l, nc_subscribed = True \<rparr>))))"

text \<open>
  Modelled from the spec: one check cycle of the missing class \<^verbatim>\<open>Es5Observer\<close>. Section
  4.2: the cycle computes a new snapshot, of the originally captured key set only when
  \<^verbatim>\<open>onlyReportObserved\<close> is set; it diffs the old snapshot against the new one, which
  replaces the old; a batch that is not empty goes to the listener in one invocation, an
  empty diff produces none. \<^verbatim>\<open>destroy\<close> cancels the checks to come, so a destroyed
  observer checks nothing and invokes nothing. The second component of the result is the
  list of the batches the listener was invoked with.
\<close>

definition new_snapshot :: "'l DirtyCheckObserver \<Rightarrow> heap \<Rightarrow> Snapshot" where
  "new_snapshot obs h =
     (case dc_observed obs of
        None \<Rightarrow> snapshot_of h (dc_target obs)
      | Some keys \<Rightarrow> [(key, v) \<leftarrow> snapshot_of h (dc_target obs). key \<in> set keys])"

definition check ::
  "'l DirtyCheckObserver \<Rightarrow> heap \<Rightarrow> 'l DirtyCheckObserver \<times> PropertyEvent list list" where
  "check obs h =
     (if dc_destroyed obs then (obs, [])
      else
        (let new = new_snapshot obs h;
             events = diff (dc_target obs) (dc_snapshot obs) new
         in (obs\<lparr> dc_snapshot := new \<rparr>, if events = [] then [] else [events])))"

definition destroy_observer :: "'l DirtyCheckObserver \<Rightarrow> 'l DirtyCheckObserver" where
  "destroy_observer obs = obs\<lparr> dc_destroyed := True \<rparr>"

text \<open>
  Modelled from the spec: the life of a dirty-check observer (the state machine of
  section 4.2): check cycles, each on the heap as the code outside has left it, and calls
  of \<^verbatim>\<open>destroy\<close>, in any order. The result is every batch delivered to the listener.
\<close>

datatype turn = Check heap | Destroy

fun run :: "'l DirtyCheckObserver \<Rightarrow> turn list \<Rightarrow> PropertyEvent list list" where
  "run obs [] = []"
| "run obs (Check h # turns) = (case check obs h of (obs', batches) \<Rightarrow> batches @ run obs' turns)"
| "run obs (Destroy # turns) = run (destroy_observer obs) turns"

text \<open>An observer that diffs the keys of a fixed set only.\<close>

definition observes_only :: "string list \<Rightarrow> 'l DirtyCheckObserver \<Rightarrow> bool" where
  "observes_only keys obs =
     (dc_observed obs = Some keys \<and> list_all (\<lambda>(key, v). key \<in> set keys) (dc_snapshot obs))"

text \<open>
  A configuration that watches the second object of \<open>ex_heap\<close> with
  \<^verbatim>\<open>onlyReportObserved\<close>, and a later heap in which that object has the new property
  \<^verbatim>\<open>w\<close> and the value NaN under \<^verbatim>\<open>x\<close>.
\<close>

definition ex_args :: "nat ObserveArgs" where
  "ex_args = \<lparr> listener = Some 0, nextTurn = None, onlyReportObserved = Some True, target = Some 1 \<rparr>"

definition ex_later :: heap where
  "ex_later =
     set_own (set_own ex_heap 1 ''w'' (Data JNull True True)) 1 ''x''
       (Data (JNumber NaN) True True)"


section \<open>Properties of the identity predicate\<close>

lemma number_equals_refl: "number_equals x x = (x \<noteq> NaN)"
  by (cases x) simp_all

lemma strict_equals_refl: "strict_equals a a = (a \<noteq> JNumber NaN)"
  by (cases a) (simp_all add: number_equals_refl)

lemma strict_equals_NaN: "\<not> strict_equals (JNumber NaN) b"
  by (cases b) simp_all

text \<open>
  C2, on \<^verbatim>\<open>isIdentical\<close> itself: \<^verbatim>\<open>isIdentical(a, b)\<close> is true exactly when \<^verbatim>\<open>a === b\<close>
  or both values are NaN, where being NaN is the same as being unequal to oneself; in
  particular \<^verbatim>\<open>isIdentical(NaN, NaN)\<close> is true although \<^verbatim>\<open>NaN === NaN\<close> is false.
\<close>

theorem isIdentical_iff:
  "isIdentical a b = (strict_equals a b \<or> (a = JNumber NaN \<and> b = JNumber NaN))
   \<and> (\<not> strict_equals a a) = (a = JNumber NaN)
   \<and> isIdentical (JNumber NaN) (JNumber NaN)
   \<and> \<not> strict_equals (JNumber NaN) (JNumber NaN)"
  by (simp add: isIdentical_def strict_equals_refl)

section \<open>Properties of the observer factory\<close>

text \<open>
  C1: for every configuration record, \<^verbatim>\<open>observe\<close> instantiates \<^verbatim>\<open>Es7Observer\<close> exactly
  when \<^verbatim>\<open>nextTurn\<close> is true and the host has the feature \<^verbatim>\<open>object-observe\<close>, and
  \<^verbatim>\<open>Es5Observer\<close> in every other case (\<^verbatim>\<open>nextTurn\<close> false or missing, or the feature
  absent); the class chosen is instantiated on the record itself.
\<close>

theorem observe_selects_strategy:
  "(observe_Ctor has kwArgs = Es7Observer) = (nextTurn kwArgs = Some True \<and> has ''object-observe'')
   \<and> (observe_Ctor has kwArgs = Es5Observer) = (\<not> (nextTurn kwArgs = Some True \<and> has ''object-observe''))
   \<and> observe has new kwArgs =
       new (if nextTurn kwArgs = Some True \<and> has ''object-observe'' then Es7Observer else Es5Observer) kwArgs"
proof -
  have flag: "truthy_flag (nextTurn kwArgs) = (nextTurn kwArgs = Some True)"
    by (cases "nextTurn kwArgs") simp_all
  show ?thesis
    by (simp add: observe_def observe_Ctor_def flag)
qed


section \<open>Properties of handles\<close>

lemma destroy_calls_noop:
  "destroy h = Destroy_noop \<Longrightarrow> destroy_calls foreign n h s = (replicate n None, h, s)"
  by (induction n) (simp_all add: call_destroy_def)

lemma settle_eq:
  "settle h c = (h\<lparr> destroy := fst (world_of c) \<rparr>,
     (case c of Normal (d, s) \<Rightarrow> Normal s | Throw e (d, s) \<Rightarrow> Throw e s))"
  by (cases "(h, c)" rule: settle.cases) simp_all

lemma destroy_calls_createHandle:
  assumes "fst (world_of (f Destroy_noop s)) = Destroy_noop"
  shows "destroy_calls foreign (Suc n) (createHandle f) s =
     (thrown (f Destroy_noop s) # replicate n None,
      \<lparr> destroy = Destroy_noop, destructor = f \<rparr>,
      snd (world_of (f Destroy_noop s)))"
proof (cases "f Destroy_noop s")
  case (Normal w)
  with assms obtain s' where "f Destroy_noop s = Normal (Destroy_noop, s')"
    by (cases w) simp
  then show ?thesis
    by (simp add: createHandle_def call_destroy_def destroy_calls_noop)
next
  case (Throw e w)
  with assms obtain s' where "f Destroy_noop s = Throw e (Destroy_noop, s')"
    by (cases w) simp
  then show ?thesis
    by (simp add: createHandle_def call_destroy_def destroy_calls_noop)
qed

lemma counting_world:
  "fst (world_of (counting f d (c, s))) = fst (world_of (f d s))"
  "fst (snd (world_of (counting f d (c, s)))) = Suc c"
  by (cases "f d s"; cases "world_of (f d s)"; simp)+

text \<open>
  C3, as far as it holds. For every destructor \<open>f\<close> that leaves \<^verbatim>\<open>this.destroy\<close> the empty
  function that line 250 put there, and every number \<open>n + 1\<close> of calls of \<^verbatim>\<open>destroy\<close> on
  the handle of \<^verbatim>\<open>createHandle(f)\<close>: the first call runs \<open>f\<close> (and throws what \<open>f\<close>
  throws), each of the \<open>n\<close> later calls returns normally and changes nothing, so the
  world and the handle at the end are those after one call; a destructor that counts its
  invocations has counted exactly one.
\<close>

theorem destroy_idempotent:
  assumes "fst (world_of (f Destroy_noop s)) = Destroy_noop"
  shows "destroy_calls foreign (Suc n) (createHandle f) s =
       (thrown (f Destroy_noop s) # replicate n None,
        \<lparr> destroy = Destroy_noop, destructor = f \<rparr>,
        snd (world_of (f Destroy_noop s)))
     \<and> snd (destroy_calls foreign (Suc n) (createHandle f) s) =
         snd (destroy_calls foreign (Suc 0) (createHandle f) s)
     \<and> fst (snd (snd (destroy_calls foreign' (Suc n) (createHandle (counting f)) (0, s)))) = Suc 0"
proof -
  have a: "destroy_calls foreign (Suc n) (createHandle f) s =
      (thrown (f Destroy_noop s) # replicate n None,
       \<lparr> destroy = Destroy_noop, destructor = f \<rparr>,
       snd (world_of (f Destroy_noop s)))"
    using assms by (rule destroy_calls_createHandle)
  have b: "destroy_calls foreign (Suc 0) (createHandle f) s =
      ([thrown (f Destroy_noop s)],
       \<lparr> destroy = Destroy_noop, destructor = f \<rparr>,
       snd (world_of (f Destroy_noop s)))"
    using assms destroy_calls_createHandle [of f s foreign 0] by simp
  have "fst (world_of (counting f Destroy_noop (0, s))) = Destroy_noop"
    using assms by (simp only: counting_world)
  then have "destroy_calls foreign' (Suc n) (createHandle (counting f)) (0, s) =
      (thrown (counting f Destroy_noop (0, s)) # replicate n None,
       \<lparr> destroy = Destroy_noop, destructor = counting f \<rparr>,
       snd (world_of (counting f Destroy_noop (0, s))))"
    by (rule destroy_calls_createHandle)
  then have c: "fst (snd (snd (destroy_calls foreign' (Suc n) (createHandle (counting f)) (0, s)))) = Suc 0"
    by (simp only: snd_conv counting_world)
  from a b c show ?thesis by simp
qed

text \<open>
  The theorem at a destructor that adds one to the world and throws: three calls of
  \<^verbatim>\<open>destroy\<close> throw once and add one.
\<close>

theorem destroy_idempotent_witness:
  "fst (world_of (Throw () (Destroy_noop :: unit function_value, Suc 4))) = Destroy_noop
   \<and> destroy_calls no_foreign 3 (createHandle (\<lambda>d s. Throw () (d, Suc s))) 4 =
       ([Some (), None, None],
        \<lparr> destroy = Destroy_noop, destructor = (\<lambda>d s. Throw () (d, Suc s)) \<rparr>, 5)"
  using destroy_idempotent [of "\<lambda>d s. Throw () (d, Suc s)" "4 :: nat" no_foreign 2 no_foreign]
  by (simp add: numeral_3_eq_3 numeral_2_eq_2 eval_nat_numeral)

text \<open>
  A destructor that reassigns \<^verbatim>\<open>this.destroy\<close> is invoked again: with the destructor
  \<open>rearm\<close>, counted, three calls of \<^verbatim>\<open>destroy\<close> invoke it three times and leave the handle
  as \<^verbatim>\<open>createHandle\<close> returned it.
\<close>

theorem destroy_rearmed:
  "destroy_calls no_foreign 3 (createHandle (counting rearm)) (0, ()) =
     ([None, None, None], createHandle (counting rearm), (3, ()))"
  by (simp add: numeral_3_eq_3 createHandle_def call_destroy_def rearm_def)


section \<open>Properties of the shallow mixin and of create\<close>



lemma map_of_define_property:
  "map_of (define_property key p ps) k = (if k = key then Some p else map_of ps k)"
  by (induction key p ps rule: define_property.induct) auto






































section \<open>Properties of the Symbol shim\<close>

lemma getSymbolName_loop_free:
  "desc @ postfix_string (getSymbolName_loop reg desc q) \<notin> set reg"
  by (induction reg desc q rule: getSymbolName_loop.induct)
     (subst getSymbolName_loop.simps, simp)

lemma getSymbolName_loop_least:
  "q \<le> getSymbolName_loop reg desc q
   \<and> (\<forall>p. q \<le> p \<and> p < getSymbolName_loop reg desc q \<longrightarrow> desc @ postfix_string p \<in> set reg)"
proof (induction reg desc q rule: getSymbolName_loop.induct)
  case (1 reg desc postfix)
  show ?case
  proof (cases "desc @ postfix_string postfix \<in> set reg")
    case True
    have eq: "getSymbolName_loop reg desc postfix = getSymbolName_loop reg desc (Suc postfix)"
      using True by (subst getSymbolName_loop.simps) simp
    have ih: "Suc postfix \<le> getSymbolName_loop reg desc (Suc postfix)
      \<and> (\<forall>p. Suc postfix \<le> p \<and> p < getSymbolName_loop reg desc (Suc postfix)
            \<longrightarrow> desc @ postfix_string p \<in> set reg)"
      by (rule 1) (rule True)
    show ?thesis
      unfolding eq
    proof (intro conjI allI impI)
      show "postfix \<le> getSymbolName_loop reg desc (Suc postfix)"
        using ih by simp
    next
      fix p
      assume p: "postfix \<le> p \<and> p < getSymbolName_loop reg desc (Suc postfix)"
      show "desc @ postfix_string p \<in> set reg"
      proof (cases "p = postfix")
        case True
        then show ?thesis using \<open>desc @ postfix_string postfix \<in> set reg\<close> by simp
      next
        case False
        then have "Suc postfix \<le> p" using p by simp
        then show ?thesis using ih p by simp
      qed
    qed
  next
    case False
    then have "getSymbolName_loop reg desc postfix = postfix"
      by (subst getSymbolName_loop.simps) simp
    then show ?thesis by (simp only: le_refl) auto
  qed
qed

lemma set_define_property:
  "(k, w) \<in> set (define_property key v ps) \<Longrightarrow> (k, w) \<in> set ps \<or> (k = key \<and> w = v)"
  by (induction key v ps rule: define_property.induct) (auto split: if_splits)

lemma Shim_inv_iff:
  "Shim_inv s = (\<forall>name. (name, Symbol_setter) \<in> set (objPrototype s)
      \<longrightarrow> (\<exists>k \<in> set (created s). name = ''@@'' @ k))"
  by (auto simp: Shim_inv_def list_all_iff)

lemma getSymbolName_ok:
  assumes "Shim_inv s"
  shows "getSymbolName desc s =
     (Inr (''@@'' @ desc @ postfix_string (getSymbolName_loop (created s) desc 0)),
      s\<lparr> created := created s @ [desc @ postfix_string (getSymbolName_loop (created s) desc 0)],
         objPrototype := define_property
           (''@@'' @ desc @ postfix_string (getSymbolName_loop (created s) desc 0))
           Symbol_setter (objPrototype s) \<rparr>)"
proof -
  let ?d = "desc @ postfix_string (getSymbolName_loop (created s) desc 0)"
  have fresh: "?d \<notin> set (created s)"
    by (rule getSymbolName_loop_free)
  have "map_of (objPrototype s) (''@@'' @ ?d) \<noteq> Some Symbol_setter"
  proof
    assume "map_of (objPrototype s) (''@@'' @ ?d) = Some Symbol_setter"
    then have "(''@@'' @ ?d, Symbol_setter) \<in> set (objPrototype s)"
      by (rule map_of_SomeD)
    then obtain k where "k \<in> set (created s)" "''@@'' @ ?d = ''@@'' @ k"
      using assms unfolding Shim_inv_iff by blast
    with fresh show False by simp
  qed
  then have "defineProperty_setter (''@@'' @ ?d) (objPrototype s) =
      Inr (define_property (''@@'' @ ?d) Symbol_setter (objPrototype s))"
    by (auto simp: defineProperty_setter_def split: option.splits prototype_property.splits)
  then show ?thesis
    by (simp add: getSymbolName_def Let_def)
qed

lemma Shim_inv_getSymbolName:
  assumes "Shim_inv s"
  shows "Shim_inv (snd (getSymbolName desc s))"
  unfolding getSymbolName_ok [OF assms] Shim_inv_iff snd_conv
proof (intro allI impI)
  fix name
  let ?d = "desc @ postfix_string (getSymbolName_loop (created s) desc 0)"
  assume "(name, Symbol_setter) \<in> set (objPrototype
     (s\<lparr> created := created s @ [?d],
         objPrototype := define_property (''@@'' @ ?d) Symbol_setter (objPrototype s) \<rparr>))"
  then have "(name, Symbol_setter) \<in> set (objPrototype s) \<or> name = ''@@'' @ ?d"
    using set_define_property [of name Symbol_setter "''@@'' @ ?d" Symbol_setter "objPrototype s"]
    by auto
  then show "\<exists>k \<in> set (created (s\<lparr> created := created s @ [?d],
         objPrototype := define_property (''@@'' @ ?d) Symbol_setter (objPrototype s) \<rparr>)).
       name = ''@@'' @ k"
    using assms unfolding Shim_inv_iff by auto
qed

lemma Shim_inv_host: "Shim_inv Shim_host"
  by (simp add: Shim_inv_def Shim_host_def)


lemma getSymbolNames_distinct:
  "Shim_inv s \<Longrightarrow>
   \<exists>names. fst (getSymbolNames descs s) = map Inr names
     \<and> length names = length descs
     \<and> distinct names
     \<and> set names \<inter> (@) ''@@'' ` set (created s) = {}
     \<and> Shim_inv (snd (getSymbolNames descs s))"
proof (induction descs arbitrary: s)
  case Nil
  then show ?case by simp
next
  case (Cons desc descs)
  define d where "d = desc @ postfix_string (getSymbolName_loop (created s) desc 0)"
  define s1 where "s1 = snd (getSymbolName desc s)"
  have one: "getSymbolName desc s = (Inr (''@@'' @ d), s1)"
    unfolding d_def s1_def using getSymbolName_ok [OF Cons.prems, of desc] by simp
  have reg: "created s1 = created s @ [d]"
    unfolding d_def s1_def using getSymbolName_ok [OF Cons.prems, of desc] by simp
  have fresh: "d \<notin> set (created s)"
    unfolding d_def by (rule getSymbolName_loop_free)
  have inv: "Shim_inv s1"
    unfolding s1_def using Cons.prems by (rule Shim_inv_getSymbolName)
  from Cons.IH [OF inv] obtain names where names:
    "fst (getSymbolNames descs s1) = map Inr names" "length names = length descs"
    "distinct names" "set names \<inter> (@) ''@@'' ` set (created s1) = {}"
    "Shim_inv (snd (getSymbolNames descs s1))"
    by blast
  have new: "''@@'' @ d \<notin> set names"
    using names(4) by (auto simp: reg)
  have old: "''@@'' @ d \<notin> (@) ''@@'' ` set (created s)"
    using fresh by auto
  have res: "fst (getSymbolNames (desc # descs) s) = map Inr ((''@@'' @ d) # names)"
    using names(1) by (cases "getSymbolNames descs s1") (simp add: one)
  have st: "snd (getSymbolNames (desc # descs) s) = snd (getSymbolNames descs s1)"
    by (cases "getSymbolNames descs s1") (simp add: one)
  have disj: "set ((''@@'' @ d) # names) \<inter> (@) ''@@'' ` set (created s) = {}"
    using names(4) old by (auto simp: reg)
  show ?case
    using res st disj names(2,3,5) new
    by (intro exI [of _ "(''@@'' @ d) # names"]) simp
qed

lemma getSymbolName_loop_taken:
  "desc @ postfix_string q \<in> set reg \<Longrightarrow>
   getSymbolName_loop reg desc q = getSymbolName_loop reg desc (Suc q)"
  by (subst getSymbolName_loop.simps) simp

lemma getSymbolName_loop_stop:
  "desc @ postfix_string q \<notin> set reg \<Longrightarrow> getSymbolName_loop reg desc q = q"
  by (subst getSymbolName_loop.simps) simp

lemma postfix_string_simps:
  "postfix_string 0 = []" "postfix_string (Suc 0) = ''1''" "postfix_string (Suc (Suc 0)) = ''2''"
  by (simp_all add: postfix_string_def String_nat.simps digit_def)

lemma loop_ex:
  "getSymbolName_loop [] ''a'' 0 = 0"
  "getSymbolName_loop [''a''] ''a'' 0 = Suc 0"
  "getSymbolName_loop [''a'', ''a1''] ''a1'' 0 = Suc 0"
  "getSymbolName_loop [''a'', ''a1'', ''a11''] ''a'' 0 = Suc (Suc 0)"
  by (simp_all add: getSymbolName_loop_taken getSymbolName_loop_stop postfix_string_simps)

lemma getSymbolNames_ex:
  "fst (getSymbolNames [''a'', ''a'', ''a1'', ''a''] Shim_host) =
     map Inr [''@@a'', ''@@a1'', ''@@a11'', ''@@a2'']"
  by (simp add: getSymbolName_def Let_def Shim_host_def defineProperty_setter_def
      loop_ex postfix_string_simps)


lemma Shim_inv_Symbol:
  assumes "Shim_inv s"
  shows "Shim_inv (snd (Symbol ToString kind description s))"
proof (cases kind)
  case Construct
  then show ?thesis using assms by (simp add: Symbol_def)
next
  case Call
  let ?s0 = "s\<lparr> allocated := Suc (allocated s) \<rparr>"
  have inv0: "Shim_inv ?s0"
    using assms by (simp add: Shim_inv_def)
  have "Shim_inv (snd (getSymbolName (String_description ToString description) ?s0))"
    using inv0 by (rule Shim_inv_getSymbolName)
  then show ?thesis
    using Call by (simp add: Symbol_def Let_def getSymbolName_ok [OF inv0])
qed

lemma Shim_loaded_eq:
  "Shim_loaded ToString =
     \<lparr> created = well_known,
       objPrototype =
         map (\<lambda>key. (key, Host_property))
           [''constructor'', ''toString'', ''toLocaleString'', ''valueOf'', ''hasOwnProperty'',
            ''isPrototypeOf'', ''propertyIsEnumerable'']
         @ map (\<lambda>key. (''@@'' @ key, Symbol_setter)) well_known,
       globalSymbols = [],
       allocated = 11 \<rparr>"
  by (simp add: Shim_loaded_def Shim_host_def well_known_def Symbol_def getSymbolName_def Let_def
      defineProperty_setter_def getSymbolName_loop_stop postfix_string_simps)


lemma Shim_inv_loaded: "Shim_inv (Shim_loaded ToString)"
  by (simp add: Shim_loaded_eq Shim_inv_def well_known_def)

lemma getSymbolName_iterator:
  "fst (getSymbolName ''iterator'' (Shim_loaded ToString)) = Inr ''@@iterator1''"
  by (simp add: Shim_loaded_eq well_known_def getSymbolName_def Let_def defineProperty_setter_def
      getSymbolName_loop_taken getSymbolName_loop_stop postfix_string_simps)

lemma Symbol_for_iterator:
  "Symbol_for ToString ''@@iterator'' (Shim_loaded ToString) =
     (Inr (Symbol_object \<lparr> sym_id = 11, sym_description = ''@@iterator'', sym_name = ''@@@@iterator'' \<rparr>),
      (Shim_loaded ToString)
        \<lparr> created := well_known @ [''@@iterator''],
           objPrototype := objPrototype (Shim_loaded ToString) @ [(''@@@@iterator'', Symbol_setter)],
           globalSymbols := [(''@@iterator'',
              \<lparr> sym_id = 11, sym_description = ''@@iterator'', sym_name = ''@@@@iterator'' \<rparr>, False)],
           allocated := 12 \<rparr>)"
  by (simp add: Shim_loaded_eq well_known_def Symbol_for_def get_globalSymbols_def Symbol_def
      getSymbolName_def Let_def defineProperty_setter_def set_globalSymbols_def
      getSymbolName_loop_stop postfix_string_simps)

text \<open>
  C5: in every state the module reaches, every sequence of calls of \<^verbatim>\<open>getSymbolName\<close>
  returns (no call throws, and the loop of every call ends), and the names returned are
  pairwise distinct and differ from every name allocated before, whatever the
  descriptions are, equal ones included. A single call returns \<^verbatim>\<open>'@@'\<close>, the description
  and the postfix of the least counter whose key is not in the registry (no postfix for
  the counter zero), and registers that key.
\<close>

theorem getSymbolName_unique:
  assumes "Shim_inv s"
  shows "(\<exists>names. fst (getSymbolNames descs s) = map Inr names
            \<and> length names = length descs
            \<and> distinct names
            \<and> set names \<inter> (@) ''@@'' ` set (created s) = {})
       \<and> (\<exists>postfix. fst (getSymbolName desc s) = Inr (''@@'' @ desc @ postfix_string postfix)
            \<and> desc @ postfix_string postfix \<notin> set (created s)
            \<and> (\<forall>p < postfix. desc @ postfix_string p \<in> set (created s))
            \<and> created (snd (getSymbolName desc s)) = created s @ [desc @ postfix_string postfix])"
proof
  show "\<exists>names. fst (getSymbolNames descs s) = map Inr names
            \<and> length names = length descs
            \<and> distinct names
            \<and> set names \<inter> (@) ''@@'' ` set (created s) = {}"
    using getSymbolNames_distinct [OF assms, of descs] by blast
next
  let ?p = "getSymbolName_loop (created s) desc 0"
  have "fst (getSymbolName desc s) = Inr (''@@'' @ desc @ postfix_string ?p)"
    "created (snd (getSymbolName desc s)) = created s @ [desc @ postfix_string ?p]"
    using getSymbolName_ok [OF assms, of desc] by simp_all
  moreover have "desc @ postfix_string ?p \<notin> set (created s)"
    by (rule getSymbolName_loop_free)
  moreover have "\<forall>p < ?p. desc @ postfix_string p \<in> set (created s)"
    using getSymbolName_loop_least [of 0 "created s" desc] by simp
  ultimately show "\<exists>postfix. fst (getSymbolName desc s) = Inr (''@@'' @ desc @ postfix_string postfix)
            \<and> desc @ postfix_string postfix \<notin> set (created s)
            \<and> (\<forall>p < postfix. desc @ postfix_string p \<in> set (created s))
            \<and> created (snd (getSymbolName desc s)) = created s @ [desc @ postfix_string postfix]"
    by blast
qed

text \<open>
  The theorem in the host's first state: the description \<^verbatim>\<open>a\<close> three times, with
  \<^verbatim>\<open>a1\<close> in between.
\<close>

theorem getSymbolName_unique_witness:
  "Shim_inv Shim_host
   \<and> fst (getSymbolNames [''a'', ''a'', ''a1'', ''a''] Shim_host) =
       map Inr [''@@a'', ''@@a1'', ''@@a11'', ''@@a2'']
   \<and> (\<exists>names. fst (getSymbolNames [''a'', ''a'', ''a1'', ''a''] Shim_host) = map Inr names
         \<and> distinct names)"
  using getSymbolName_unique [OF Shim_inv_host, of "[''a'', ''a'', ''a1'', ''a'']" "''a''"]
    Shim_inv_host getSymbolNames_ex
  by blast

lemma String_description_case:
  "String_description ToString description =
     (case description of D_undefined \<Rightarrow> [] | D_string x \<Rightarrow> x | D_number n \<Rightarrow> ToString n)"
  by (cases description) simp_all

lemma String_positive_nat: "n < 2 ^ 53 \<Longrightarrow> String_positive digits (real n) = String_nat n"
  by (simp add: String_positive_def)

lemma String_number_nat:
  assumes "n < 2 ^ 53"
  shows "String_number digits (Finite (real n)) = String_nat n"
    and "0 < n \<Longrightarrow> String_number digits (Finite (- real n)) = CHR ''-'' # String_nat n"
  using assms by (simp_all add: String_positive_nat)

lemma String_nat_ex: "String_nat 5 = ''5''" "String_nat 42 = ''42''"
  by (simp_all add: String_nat.simps digit_def)

lemma String_number_ex: "String_number digits (Finite 5) = ''5''"
  using String_number_nat(1) [of 5 digits] by (simp add: String_nat_ex)

lemma getSymbolName_42:
  "fst (getSymbolName ''42'' (Shim_loaded ToString)) = Inr ''@@42''"
  by (simp add: Shim_loaded_eq well_known_def getSymbolName_def Let_def defineProperty_setter_def
      getSymbolName_loop_stop postfix_string_simps)

text \<open>
  C9: with \<^verbatim>\<open>new\<close>, \<^verbatim>\<open>Symbol\<close> throws a TypeError for every description and changes
  nothing. Called as a plain function in a state the module reaches, it returns a new
  symbol object whose description is \<^verbatim>\<open>String\<close> of the argument: the empty string for
  \<^verbatim>\<open>undefined\<close>, a string itself, and for a number its string, which is \<^verbatim>\<open>'NaN'\<close>,
  \<^verbatim>\<open>'Infinity'\<close>, \<^verbatim>\<open>'-Infinity'\<close>, \<^verbatim>\<open>'0'\<close> for both zeros, and the decimal numeral of an
  integer, with its sign, as \<^verbatim>\<open>'5'\<close> for 5. The name of the symbol is the one
  \<^verbatim>\<open>getSymbolName\<close> allocates for that description, \<^verbatim>\<open>'@@'\<close> followed by the description
  and a counter: a name that was not allocated before and is from then on.
\<close>

theorem Symbol_not_a_constructor:
  "Symbol (String_number digits) Construct description s = (Inl TypeError_not_a_constructor, s)
   \<and> (Shim_inv s \<longrightarrow>
        (\<exists>name s' k. Symbol (String_number digits) Call description s =
             (Inr \<lparr> sym_id = allocated s,
                    sym_description =
                      (case description of
                         D_undefined \<Rightarrow> []
                       | D_string x \<Rightarrow> x
                       | D_number n \<Rightarrow> String_number digits n),
                    sym_name = name \<rparr>, s')
           \<and> name =
               ''@@'' @ (case description of
                           D_undefined \<Rightarrow> []
                         | D_string x \<Rightarrow> x
                         | D_number n \<Rightarrow> String_number digits n) @ postfix_string k
           \<and> fst (getSymbolName
                    (case description of
                       D_undefined \<Rightarrow> []
                     | D_string x \<Rightarrow> x
                     | D_number n \<Rightarrow> String_number digits n) s) = Inr name
           \<and> name \<notin> (@) ''@@'' ` set (created s)
           \<and> name \<in> (@) ''@@'' ` set (created s')
           \<and> allocated s' = Suc (allocated s)
           \<and> Shim_inv s'))
   \<and> String_number digits NaN = ''NaN''
   \<and> String_number digits PosInfinity = ''Infinity''
   \<and> String_number digits NegInfinity = ''-Infinity''
   \<and> String_number digits NegZero = ''0''
   \<and> String_number digits (Finite 0) = ''0''
   \<and> String_number digits (Finite 5) = ''5''
   \<and> (n < 2 ^ 53 \<longrightarrow>
        String_number digits (Finite (real n)) = String_nat n
        \<and> (0 < n \<longrightarrow> String_number digits (Finite (- real n)) = CHR ''-'' # String_nat n))
   \<and> parse_nat (String_nat n) = n"
proof (intro conjI impI)
  show "Symbol (String_number digits) Construct description s = (Inl TypeError_not_a_constructor, s)"
    by (simp add: Symbol_def)
next
  assume inv: "Shim_inv s"
  let ?T = "String_number digits"
  define desc where "desc = String_description ?T description"
  have desc: "(case description of
                 D_undefined \<Rightarrow> []
               | D_string x \<Rightarrow> x
               | D_number n \<Rightarrow> String_number digits n) = desc"
    by (simp add: desc_def String_description_case)
  let ?s0 = "s\<lparr> allocated := Suc (allocated s) \<rparr>"
  let ?k = "getSymbolName_loop (created s) desc 0"
  let ?d = "desc @ postfix_string ?k"
  have inv0: "Shim_inv ?s0"
    using inv by (simp add: Shim_inv_def)
  have fresh: "?d \<notin> set (created s)"
    by (rule getSymbolName_loop_free)
  have call: "Symbol ?T Call description s =
      (Inr \<lparr> sym_id = allocated s, sym_description = desc, sym_name = ''@@'' @ ?d \<rparr>,
       snd (Symbol ?T Call description s))"
    by (simp add: Symbol_def Let_def getSymbolName_ok [OF inv0] desc_def)
  have reg: "created (snd (Symbol ?T Call description s)) = created s @ [?d]"
    by (simp add: Symbol_def Let_def getSymbolName_ok [OF inv0] desc_def)
  have al: "allocated (snd (Symbol ?T Call description s)) = Suc (allocated s)"
    by (simp add: Symbol_def Let_def getSymbolName_ok [OF inv0])
  have same: "fst (getSymbolName desc s) = Inr (''@@'' @ ?d)"
    by (simp add: getSymbolName_ok [OF inv])
  have inv': "Shim_inv (snd (Symbol ?T Call description s))"
    using inv by (rule Shim_inv_Symbol)
  have old: "''@@'' @ ?d \<notin> (@) ''@@'' ` set (created s)"
    using fresh by auto
  have new: "''@@'' @ ?d \<in> (@) ''@@'' ` set (created (snd (Symbol ?T Call description s)))"
    by (simp add: reg)
  show "\<exists>name s' k. Symbol (String_number digits) Call description s =
             (Inr \<lparr> sym_id = allocated s,
                    sym_description =
                      (case description of
                         D_undefined \<Rightarrow> []
                       | D_string x \<Rightarrow> x
                       | D_number n \<Rightarrow> String_number digits n),
                    sym_name = name \<rparr>, s')
           \<and> name =
               ''@@'' @ (case description of
                           D_undefined \<Rightarrow> []
                         | D_string x \<Rightarrow> x
                         | D_number n \<Rightarrow> String_number digits n) @ postfix_string k
           \<and> fst (getSymbolName
                    (case description of
                       D_undefined \<Rightarrow> []
                     | D_string x \<Rightarrow> x
                     | D_number n \<Rightarrow> String_number digits n) s) = Inr name
           \<and> name \<notin> (@) ''@@'' ` set (created s)
           \<and> name \<in> (@) ''@@'' ` set (created s')
           \<and> allocated s' = Suc (allocated s)
           \<and> Shim_inv s'"
    unfolding desc
    using call same old new al inv'
    by (intro exI [of _ "''@@'' @ ?d"] exI [of _ "snd (Symbol ?T Call description s)"]
        exI [of _ ?k]) simp
next
  show "String_number digits NaN = ''NaN''" "String_number digits PosInfinity = ''Infinity''"
    "String_number digits NegInfinity = ''-Infinity''" "String_number digits NegZero = ''0''"
    by simp_all
next
  show "String_number digits (Finite 0) = ''0''"
    using String_number_nat(1) [of 0 digits] by (simp add: String_nat.simps digit_def)
next
  show "String_number digits (Finite 5) = ''5''"
    by (rule String_number_ex)
next
  assume "n < 2 ^ 53"
  then show "String_number digits (Finite (real n)) = String_nat n"
    by (rule String_number_nat(1))
next
  assume "n < 2 ^ 53" "0 < n"
  then show "String_number digits (Finite (- real n)) = CHR ''-'' # String_nat n"
    by (rule String_number_nat(2))
next
  show "parse_nat (String_nat n) = n"
    by (rule parse_nat_String_nat)
qed

text \<open>
  The theorem after the module is loaded: \<^verbatim>\<open>Symbol(42)\<close> is the twelfth symbol object,
  with the description \<^verbatim>\<open>'42'\<close> and the name \<^verbatim>\<open>@@42\<close>; \<^verbatim>\<open>Symbol('iterator')\<close> would
  be named \<^verbatim>\<open>@@iterator1\<close>, since \<^verbatim>\<open>@@iterator\<close> is taken.
\<close>

theorem Symbol_not_a_constructor_witness:
  "Shim_inv (Shim_loaded (\<lambda>n. []))
   \<and> Symbol (String_number (\<lambda>x. [])) Construct (D_number (Finite 42)) (Shim_loaded (\<lambda>n. [])) =
       (Inl TypeError_not_a_constructor, Shim_loaded (\<lambda>n. []))
   \<and> fst (Symbol (String_number (\<lambda>x. [])) Call (D_number (Finite 42)) (Shim_loaded (\<lambda>n. []))) =
       Inr \<lparr> sym_id = 11, sym_description = ''42'', sym_name = ''@@42'' \<rparr>
   \<and> fst (Symbol (String_number (\<lambda>x. [])) Call (D_string ''iterator'') (Shim_loaded (\<lambda>n. []))) =
       Inr \<lparr> sym_id = 11, sym_description = ''iterator'', sym_name = ''@@iterator1'' \<rparr>
   \<and> (42 :: nat) < 2 ^ 53
   \<and> String_number (\<lambda>x. []) (Finite (real 42)) = ''42''"
proof -
  have al: "allocated (Shim_loaded (\<lambda>n. [])) = 11"
    by (simp add: Shim_loaded_eq)
  have s42: "String_number (\<lambda>x. []) (Finite 42) = ''42''"
    using String_number_nat(1) [of 42 "\<lambda>x. []"] by (simp add: String_nat_ex)
  have a: "fst (Symbol (String_number (\<lambda>x. [])) Call (D_number (Finite 42)) (Shim_loaded (\<lambda>n. []))) =
       Inr \<lparr> sym_id = 11, sym_description = ''42'', sym_name = ''@@42'' \<rparr>"
    using Symbol_not_a_constructor [of "\<lambda>x. []" "D_number (Finite 42)" "Shim_loaded (\<lambda>n. [])" 42]
      Shim_inv_loaded [of "\<lambda>n. []"] getSymbolName_42 [of "\<lambda>n. []"] al s42
    by auto
  have b: "fst (Symbol (String_number (\<lambda>x. [])) Call (D_string ''iterator'') (Shim_loaded (\<lambda>n. []))) =
       Inr \<lparr> sym_id = 11, sym_description = ''iterator'', sym_name = ''@@iterator1'' \<rparr>"
    using Symbol_not_a_constructor [of "\<lambda>x. []" "D_string ''iterator''" "Shim_loaded (\<lambda>n. [])" 42]
      Shim_inv_loaded [of "\<lambda>n. []"] getSymbolName_iterator [of "\<lambda>n. []"] al
    by auto
  have c: "Symbol (String_number (\<lambda>x. [])) Construct (D_number (Finite 42)) (Shim_loaded (\<lambda>n. [])) =
       (Inl TypeError_not_a_constructor, Shim_loaded (\<lambda>n. []))"
    using Symbol_not_a_constructor [of "\<lambda>x. []" "D_number (Finite 42)" "Shim_loaded (\<lambda>n. [])" 42]
    by blast
  show ?thesis
    using a b c s42 Shim_inv_loaded [of "\<lambda>n. []"] by simp
qed

lemma Symbol_for_inherited_key:
  "Symbol_for ToString ''toString'' (Shim_loaded ToString) =
     (Inr (Host_value ''toString''), Shim_loaded ToString)
   \<and> Symbol_keyFor (Host_value ''toString'') (Shim_loaded ToString) = Inl TypeError_not_a_symbol"
  by (simp add: Shim_loaded_eq Symbol_for_def get_globalSymbols_def Symbol_keyFor_def
      validateSymbol_def well_known_def)

lemma Symbol_keyFor_setter_key:
  "(case Symbol_for ToString ''@@iterator'' (Shim_loaded ToString) of
      (Inl e, s) \<Rightarrow> False
    | (Inr v, s) \<Rightarrow>
        isSymbol v
        \<and> Symbol_for ToString ''@@iterator'' s = (Inr v, s)
        \<and> Symbol_keyFor v s = Inr None)"
proof -
  define v where "v = Symbol_object
    \<lparr> sym_id = 11, sym_description = ''@@iterator'', sym_name = ''@@@@iterator'' \<rparr>"
  define s where "s = (Shim_loaded ToString)
        \<lparr> created := well_known @ [''@@iterator''],
           objPrototype := objPrototype (Shim_loaded ToString) @ [(''@@@@iterator'', Symbol_setter)],
           globalSymbols := [(''@@iterator'',
              \<lparr> sym_id = 11, sym_description = ''@@iterator'', sym_name = ''@@@@iterator'' \<rparr>, False)],
           allocated := 12 \<rparr>"
  have first: "Symbol_for ToString ''@@iterator'' (Shim_loaded ToString) = (Inr v, s)"
    unfolding v_def s_def by (rule Symbol_for_iterator)
  have again: "Symbol_for ToString ''@@iterator'' s = (Inr v, s)"
    by (simp add: v_def s_def Symbol_for_def get_globalSymbols_def)
  have key: "Symbol_keyFor v s = Inr None"
    by (simp add: v_def s_def Symbol_keyFor_def validateSymbol_def)
  have sym: "isSymbol v"
    by (simp add: v_def)
  show ?thesis
    unfolding first using again key sym by simp
qed

lemma keyFor_loop_finds:
  "distinct (map (\<lambda>g. sym_id (fst (snd g))) gs) \<Longrightarrow> (key, symb, True) \<in> set gs \<Longrightarrow>
   keyFor_loop gs (Symbol_object symb) = Some key"
proof (induction gs)
  case Nil
  then show ?case by simp
next
  case (Cons g gs)
  obtain k v e where g: "g = (k, v, e)"
    by (cases g)
  show ?case
  proof (cases "g = (key, symb, True)")
    case True
    then show ?thesis by simp
  next
    case False
    then have mem: "(key, symb, True) \<in> set gs"
      using Cons.prems(2) by simp
    have isin: "sym_id symb \<in> (\<lambda>g. sym_id (fst (snd g))) ` set gs"
      by (rule image_eqI [where x = "(key, symb, True)"]) (simp_all add: mem)
    have notin: "sym_id v \<notin> (\<lambda>g. sym_id (fst (snd g))) ` set gs"
      using Cons.prems(1) g by simp
    have "sym_id v \<noteq> sym_id symb"
      using isin notin by metis
    then show ?thesis
      using Cons.IH mem Cons.prems(1) g by simp
  qed
qed

lemma Symbol_Call_ok:
  assumes "Shim_inv s"
  shows "Symbol ToString Call (D_string key) s =
     (Inr \<lparr> sym_id = allocated s, sym_description = key,
            sym_name = ''@@'' @ key @ postfix_string (getSymbolName_loop (created s) key 0) \<rparr>,
      s\<lparr> allocated := Suc (allocated s),
         created := created s @ [key @ postfix_string (getSymbolName_loop (created s) key 0)],
         objPrototype := define_property
           (''@@'' @ key @ postfix_string (getSymbolName_loop (created s) key 0))
           Symbol_setter (objPrototype s) \<rparr>)"
proof -
  have inv0: "Shim_inv (s\<lparr> allocated := Suc (allocated s) \<rparr>)"
    using assms by (simp add: Shim_inv_def)
  show ?thesis
    by (simp add: Symbol_def Let_def getSymbolName_ok [OF inv0])
qed

lemma Shim_inv_set_globalSymbols: "Shim_inv (set_globalSymbols key symb s) = Shim_inv s"
  by (simp add: set_globalSymbols_def Shim_inv_def split: option.splits prototype_property.splits)

lemma Shim_inv_Symbol_for:
  assumes "Shim_inv s"
  shows "Shim_inv (snd (Symbol_for ToString key s))"
proof (cases "truthy (get_globalSymbols s key)")
  case True
  then show ?thesis using assms by (simp add: Symbol_for_def)
next
  case False
  have "Shim_inv (snd (Symbol ToString Call (D_string key) s))"
    using assms by (rule Shim_inv_Symbol)
  then show ?thesis
    using False by (simp add: Symbol_for_def Symbol_Call_ok [OF assms] Shim_inv_set_globalSymbols)
qed

text \<open>
  Where the round trip of the registry holds: for a key under which \<^verbatim>\<open>Object.prototype\<close>
  has no property, in every state the module reaches, \<^verbatim>\<open>Symbol.for\<close> returns a symbol,
  returns the same symbol when called again, and \<^verbatim>\<open>Symbol.keyFor\<close> of that symbol is
  the key.
\<close>

lemma Symbol_for_keyFor_roundtrip:
  assumes inv: "Shim_inv s" and reg: "registry_inv s"
    and clean: "map_of (objPrototype s) key = None"
  shows "\<exists>symb s'. Symbol_for ToString key s = (Inr (Symbol_object symb), s')
     \<and> Symbol_for ToString key s' = (Inr (Symbol_object symb), s')
     \<and> Symbol_keyFor (Symbol_object symb) s' = Inr (Some key)
     \<and> Shim_inv s' \<and> registry_inv s'"
proof (cases "map_of (globalSymbols s) key")
  case (Some p)
  obtain symb e where p: "p = (symb, e)"
    by (cases p)
  have mem: "(key, symb, e) \<in> set (globalSymbols s)"
    using Some p by (auto dest: map_of_SomeD)
  have "e \<or> map_of (objPrototype s) key = Some Symbol_setter"
    using reg mem by (auto simp: registry_inv_def list_all_iff)
  then have e: "e"
    using clean by simp
  have first: "Symbol_for ToString key s = (Inr (Symbol_object symb), s)"
    using Some p by (simp add: Symbol_for_def get_globalSymbols_def)
  have "keyFor_loop (globalSymbols s) (Symbol_object symb) = Some key"
    using reg mem e by (intro keyFor_loop_finds) (simp_all add: registry_inv_def)
  then have "Symbol_keyFor (Symbol_object symb) s = Inr (Some key)"
    by (simp add: Symbol_keyFor_def validateSymbol_def)
  then show ?thesis
    using first inv reg by blast
next
  case None
  define d where "d = key @ postfix_string (getSymbolName_loop (created s) key 0)"
  define symb where "symb = \<lparr> sym_id = allocated s, sym_description = key, sym_name = ''@@'' @ d \<rparr>"
  define s' where "s' = s\<lparr> allocated := Suc (allocated s),
         created := created s @ [d],
         objPrototype := define_property (''@@'' @ d) Symbol_setter (objPrototype s),
         globalSymbols := globalSymbols s @ [(key, symb, True)] \<rparr>"
  have neq: "key \<noteq> ''@@'' @ d"
  proof
    assume "key = ''@@'' @ d"
    then have "length key = length (''@@'' @ d)" by simp
    then show False by (simp add: d_def)
  qed
  have clean': "map_of (define_property (''@@'' @ d) Symbol_setter (objPrototype s)) key = None"
    using clean neq by (simp add: map_of_define_property)
  have falsy: "\<not> truthy (get_globalSymbols s key)"
    using None clean by (simp add: get_globalSymbols_def)
  have first: "Symbol_for ToString key s = (Inr (Symbol_object symb), s')"
    using falsy None clean'
    by (simp add: Symbol_for_def Symbol_Call_ok [OF inv] set_globalSymbols_def
        d_def [symmetric] symb_def s'_def)
  have own: "map_of (globalSymbols s') key = Some (symb, True)"
    using None by (simp add: s'_def map_add_def)
  have again: "Symbol_for ToString key s' = (Inr (Symbol_object symb), s')"
    using own by (simp add: Symbol_for_def get_globalSymbols_def)
  have ids: "sym_id v < allocated s" if "(k, v, e) \<in> set (globalSymbols s)" for k v e
    using reg that by (auto simp: registry_inv_def list_all_iff)
  have fresh: "allocated s \<notin> set (map (\<lambda>g. sym_id (fst (snd g))) (globalSymbols s))"
    using ids by fastforce
  have dist: "distinct (map (\<lambda>g. sym_id (fst (snd g))) (globalSymbols s'))"
    using reg fresh by (simp add: registry_inv_def s'_def symb_def)
  have "keyFor_loop (globalSymbols s') (Symbol_object symb) = Some key"
    using dist by (rule keyFor_loop_finds) (simp add: s'_def)
  then have key: "Symbol_keyFor (Symbol_object symb) s' = Inr (Some key)"
    by (simp add: Symbol_keyFor_def validateSymbol_def)
  have inv': "Shim_inv s'"
    using Shim_inv_Symbol_for [OF inv, of ToString key] first by simp
  have ok: "sym_id v < allocated s' \<and> (e \<or> map_of (objPrototype s') k = Some Symbol_setter)"
    if "(k, v, e) \<in> set (globalSymbols s')" for k v e
  proof (cases "(k, v, e) = (key, symb, True)")
    case True
    then show ?thesis by (simp add: s'_def symb_def)
  next
    case False
    then have "(k, v, e) \<in> set (globalSymbols s)"
      using that by (auto simp: s'_def)
    then have "sym_id v < allocated s \<and> (e \<or> map_of (objPrototype s) k = Some Symbol_setter)"
      using reg by (auto simp: registry_inv_def list_all_iff)
    then show ?thesis
      by (auto simp: s'_def map_of_define_property)
  qed
  have "list_all (\<lambda>(key, symb, enumerable).
            sym_id symb < allocated s'
            \<and> (enumerable \<or> map_of (objPrototype s') key = Some Symbol_setter))
          (globalSymbols s')"
    using ok by (auto simp: list_all_iff)
  then have reg': "registry_inv s'"
    using dist by (simp add: registry_inv_def)
  show ?thesis
    using first again key inv' reg' by blast
qed

text \<open>
  Both invariants hold before the module is loaded and after every call of \<^verbatim>\<open>Symbol\<close>
  and of \<^verbatim>\<open>Symbol.for\<close>, whatever the key.
\<close>

lemma registry_inv_host: "registry_inv Shim_host"
  by (simp add: registry_inv_def Shim_host_def)


lemma registry_inv_Symbol:
  assumes "Shim_inv s" "registry_inv s"
  shows "registry_inv (snd (Symbol ToString kind description s))"
proof (cases kind)
  case Construct
  then show ?thesis using assms(2) by (simp add: Symbol_def)
next
  case Call
  have inv0: "Shim_inv (s\<lparr> allocated := Suc (allocated s) \<rparr>)"
    using assms(1) by (simp add: Shim_inv_def)
  have "sym_id v < Suc (allocated s) \<and> (e \<or> map_of (define_property n Symbol_setter (objPrototype s)) k = Some Symbol_setter)"
    if "(k, v, e) \<in> set (globalSymbols s)" for k v e n
  proof -
    have "sym_id v < allocated s \<and> (e \<or> map_of (objPrototype s) k = Some Symbol_setter)"
      using assms(2) that by (auto simp: registry_inv_def list_all_iff)
    then show ?thesis
      by (auto simp: map_of_define_property)
  qed
  then show ?thesis
    using Call assms(2)
    by (auto simp: Symbol_def Let_def getSymbolName_ok [OF inv0] registry_inv_def list_all_iff)
qed

lemma set_globalSymbols_new:
  "map_of (globalSymbols s) key = None \<Longrightarrow>
   set_globalSymbols key symb s =
     s\<lparr> globalSymbols :=
         globalSymbols s @ [(key, symb, map_of (objPrototype s) key \<noteq> Some Symbol_setter)] \<rparr>"
  by (simp add: set_globalSymbols_def split: option.splits prototype_property.splits)

lemma registry_inv_Symbol_for:
  assumes inv: "Shim_inv s" and reg: "registry_inv s"
  shows "registry_inv (snd (Symbol_for ToString key s))"
proof (cases "truthy (get_globalSymbols s key)")
  case True
  then show ?thesis using reg by (simp add: Symbol_for_def)
next
  case False
  then have none: "map_of (globalSymbols s) key = None"
    by (cases "map_of (globalSymbols s) key") (auto simp: get_globalSymbols_def)
  define d where "d = key @ postfix_string (getSymbolName_loop (created s) key 0)"
  define symb where "symb = \<lparr> sym_id = allocated s, sym_description = key, sym_name = ''@@'' @ d \<rparr>"
  define ps where "ps = define_property (''@@'' @ d) Symbol_setter (objPrototype s)"
  define e where "e = (map_of ps key \<noteq> Some Symbol_setter)"
  define s' where "s' = s\<lparr> allocated := Suc (allocated s),
         created := created s @ [d],
         objPrototype := ps,
         globalSymbols := globalSymbols s @ [(key, symb, e)] \<rparr>"
  have first: "snd (Symbol_for ToString key s) = s'"
    using False none
    by (simp add: Symbol_for_def Symbol_Call_ok [OF inv] set_globalSymbols_new
        d_def symb_def s'_def ps_def e_def)
  have ids: "sym_id v < allocated s" if "(k, v, b) \<in> set (globalSymbols s)" for k v b
    using reg that by (auto simp: registry_inv_def list_all_iff)
  have fresh: "allocated s \<notin> set (map (\<lambda>g. sym_id (fst (snd g))) (globalSymbols s))"
    using ids by fastforce
  have dist: "distinct (map (\<lambda>g. sym_id (fst (snd g))) (globalSymbols s'))"
    using reg fresh by (simp add: registry_inv_def s'_def symb_def)
  have ok: "sym_id v < allocated s' \<and> (b \<or> map_of (objPrototype s') k = Some Symbol_setter)"
    if "(k, v, b) \<in> set (globalSymbols s')" for k v b
  proof (cases "(k, v, b) = (key, symb, e)")
    case True
    then show ?thesis by (auto simp: s'_def symb_def e_def)
  next
    case False
    then have "(k, v, b) \<in> set (globalSymbols s)"
      using that by (auto simp: s'_def)
    then have "sym_id v < allocated s \<and> (b \<or> map_of (objPrototype s) k = Some Symbol_setter)"
      using reg by (auto simp: registry_inv_def list_all_iff)
    then show ?thesis
      by (auto simp: s'_def ps_def map_of_define_property)
  qed
  have "list_all (\<lambda>(key, symb, enumerable).
            sym_id symb < allocated s'
            \<and> (enumerable \<or> map_of (objPrototype s') key = Some Symbol_setter))
          (globalSymbols s')"
    using ok by (auto simp: list_all_iff)
  then show ?thesis
    using dist by (simp add: first registry_inv_def)
qed

text \<open>
  C8: the round trip of the registry, \<^verbatim>\<open>Symbol.keyFor(Symbol.for(key))\<close> is
  \<^verbatim>\<open>key\<close>, fails in the loaded module for two kinds of keys, because
  \<^verbatim>\<open>globalSymbols\<close> inherits from \<^verbatim>\<open>Object.prototype\<close>. For the name of a property of the host, such as
  \<^verbatim>\<open>toString\<close>, \<^verbatim>\<open>Symbol.for\<close> returns the host's function, registers nothing, and
  \<^verbatim>\<open>Symbol.keyFor\<close> of the result throws a TypeError. For the name of an allocated
  symbol, such as \<^verbatim>\<open>@@iterator\<close>, \<^verbatim>\<open>Symbol.for\<close> returns a symbol, and returns the
  same one again, but the setter of \<^verbatim>\<open>Object.prototype\<close> has stored it as a property
  that is not enumerable, and \<^verbatim>\<open>Symbol.keyFor\<close> of it returns \<^verbatim>\<open>undefined\<close>.
\<close>

theorem Symbol_for_keyFor_fails:
  "Symbol_for ToString ''toString'' (Shim_loaded ToString) =
     (Inr (Host_value ''toString''), Shim_loaded ToString)
   \<and> Symbol_keyFor (Host_value ''toString'') (Shim_loaded ToString) = Inl TypeError_not_a_symbol
   \<and> (case Symbol_for ToString ''@@iterator'' (Shim_loaded ToString) of
        (Inl e, s) \<Rightarrow> False
      | (Inr v, s) \<Rightarrow>
          isSymbol v
          \<and> Symbol_for ToString ''@@iterator'' s = (Inr v, s)
          \<and> Symbol_keyFor v s = Inr None)"
  using Symbol_for_inherited_key [of ToString] Symbol_keyFor_setter_key [of ToString]
  by (elim conjE, intro conjI) assumption+


section \<open>Properties of the observers\<close>

lemma diff_key_name: "e \<in> set (diff_key t old new key) \<Longrightarrow> ev_name e = key"
  by (auto simp: diff_key_def split: option.splits if_splits)

lemma diff_key_absent:
  "map_of old key = None \<Longrightarrow> map_of new key = None \<Longrightarrow> diff_key t old new key = []"
  by (simp add: diff_key_def)

lemma diff_names:
  assumes "e \<in> set (diff t old new)"
  shows "ev_name e \<in> fst ` set old \<union> fst ` set new"
proof -
  from assms obtain key where key:
    "key \<in> set (map fst new) \<union> set (map fst old)" "e \<in> set (diff_key t old new key)"
    by (auto simp: diff_def)
  then show ?thesis
    using diff_key_name [of e t old new key] by auto
qed

lemma diff_unchanged:
  assumes "map_of old key = Some w" "map_of new key = Some v" "isIdentical w v"
    "e \<in> set (diff t old new)"
  shows "ev_name e \<noteq> key"
proof
  assume name: "ev_name e = key"
  from assms(4) obtain k where k:
    "k \<in> set (map fst new) \<or> (k \<in> set (map fst old) \<and> map_of new k = None)"
    "e \<in> set (diff_key t old new k)"
    by (auto simp: diff_def)
  then have "k = key"
    using diff_key_name [of e t old new k] name by simp
  then have "diff_key t old new k = []"
    using assms(1-3) by (simp add: diff_key_def)
  with k(2) show False by simp
qed

text \<open>
  The consequence of C2 for the observer: a property that was NaN at the last check and
  is NaN now yields no event, although \<^verbatim>\<open>NaN === NaN\<close> is false.
\<close>

lemma diff_NaN_no_event:
  assumes "map_of old key = Some (JNumber NaN)" "map_of new key = Some (JNumber NaN)"
    "e \<in> set (diff t old new)"
  shows "ev_name e \<noteq> key"
  using assms(1,2) _ assms(3) by (rule diff_unchanged) (simp add: isIdentical_def)

lemma new_snapshot_observed:
  "dc_observed obs = Some keys \<Longrightarrow> fst ` set (new_snapshot obs h) \<subseteq> set keys"
  by (auto simp: new_snapshot_def)

lemma observes_only_iff:
  "observes_only keys obs = (dc_observed obs = Some keys \<and> fst ` set (dc_snapshot obs) \<subseteq> set keys)"
  by (auto simp: observes_only_def list_all_iff)

lemma check_observes_only:
  assumes "observes_only keys obs"
  shows "observes_only keys (fst (check obs h))"
    and "batch \<in> set (snd (check obs h)) \<Longrightarrow> e \<in> set batch \<Longrightarrow> ev_name e \<in> set keys"
proof -
  have obs: "dc_observed obs = Some keys" "fst ` set (dc_snapshot obs) \<subseteq> set keys"
    using assms by (simp_all add: observes_only_iff)
  have new: "fst ` set (new_snapshot obs h) \<subseteq> set keys"
    using obs(1) by (rule new_snapshot_observed)
  show "observes_only keys (fst (check obs h))"
    using assms new obs(1) by (simp add: check_def Let_def observes_only_iff)
  assume "batch \<in> set (snd (check obs h))" "e \<in> set batch"
  then have "e \<in> set (diff (dc_target obs) (dc_snapshot obs) (new_snapshot obs h))"
    by (auto simp: check_def Let_def split: if_splits)
  then show "ev_name e \<in> set keys"
    using diff_names [of e "dc_target obs" "dc_snapshot obs" "new_snapshot obs h"] obs(2) new
    by blast
qed

lemma run_observes_only:
  "observes_only keys obs \<Longrightarrow> batch \<in> set (run obs turns) \<Longrightarrow> e \<in> set batch \<Longrightarrow>
   ev_name e \<in> set keys"
proof (induction obs turns rule: run.induct)
  case (1 obs)
  then show ?case by simp
next
  case (2 obs h turns)
  obtain obs' batches where c: "check obs h = (obs', batches)"
    by (cases "check obs h")
  have inv: "observes_only keys obs'"
    using check_observes_only(1) [OF "2.prems"(1), of h] c by simp
  from "2.prems"(2) c have "batch \<in> set batches \<or> batch \<in> set (run obs' turns)"
    by auto
  then show ?case
  proof
    assume "batch \<in> set batches"
    then show ?thesis
      using check_observes_only(2) [OF "2.prems"(1), of batch h e] c "2.prems"(3) by simp
  next
    assume "batch \<in> set (run obs' turns)"
    then show ?thesis
      using "2.IH" [OF c [symmetric] inv] "2.prems"(3) by simp
  qed
next
  case (3 obs turns)
  have "observes_only keys (destroy_observer obs)"
    using "3.prems"(1) by (simp add: observes_only_def destroy_observer_def)
  then show ?case
    using "3.IH" "3.prems" by simp
qed

lemma run_nonempty: "batch \<in> set (run obs turns) \<Longrightarrow> batch \<noteq> []"
proof (induction obs turns rule: run.induct)
  case (1 obs)
  then show ?case by simp
next
  case (2 obs h turns)
  obtain obs' batches where c: "check obs h = (obs', batches)"
    by (cases "check obs h")
  have "b \<in> set batches \<Longrightarrow> b \<noteq> []" for b
    using c by (auto simp: check_def Let_def split: if_splits)
  then show ?case
    using 2 c by auto
next
  case (3 obs turns)
  then show ?case by simp
qed


text \<open>
  C4: \<^verbatim>\<open>observe\<close> adds nothing to and takes nothing from what the constructor does: it
  throws what the constructor throws. With the constructors of the specification, a
  configuration without \<^verbatim>\<open>target\<close> or without \<^verbatim>\<open>listener\<close> fails, whichever class is
  chosen, with the error that names the missing field, and no observer is returned.
\<close>

theorem observe_rejects_missing:
  "(target kwArgs = None \<or> listener kwArgs = None \<longrightarrow>
      observe has (new_Observer h) kwArgs =
        Inl (if target kwArgs = None then Missing_target else Missing_listener))
   \<and> (\<forall>e. new (observe_Ctor has kwArgs) kwArgs = Inl e \<longrightarrow> observe has new kwArgs = Inl e)"
  by (auto simp: observe_def new_Observer_def split: option.splits)

text \<open>The theorem at \<open>ex_args\<close> without its target, and without its listener.\<close>

theorem observe_rejects_missing_witness:
  "target (ex_args\<lparr> target := None \<rparr>) = None
   \<and> observe (\<lambda>f. True) (new_Observer ex_heap) (ex_args\<lparr> target := None \<rparr>) = Inl Missing_target
   \<and> observe (\<lambda>f. True) (new_Observer ex_heap) (ex_args\<lparr> listener := None \<rparr>) = Inl Missing_listener"
  using observe_rejects_missing [where kwArgs = "ex_args\<lparr> target := None \<rparr>"
      and has = "\<lambda>f. True" and h = ex_heap and new = "new_Observer ex_heap"]
    observe_rejects_missing [where kwArgs = "ex_args\<lparr> listener := None \<rparr>"
      and has = "\<lambda>f. True" and h = ex_heap and new = "new_Observer ex_heap"]
  by (simp add: ex_args_def)

lemma observe_DirtyCheck:
  assumes "observe has (new_Observer h) kwArgs = Inr (DirtyCheck obs)" "target kwArgs = Some t"
  shows "\<exists>l. listener kwArgs = Some l
      \<and> obs = new_DirtyCheckObserver h t l (truthy_flag (onlyReportObserved kwArgs))"
  using assms
  by (auto simp: observe_def new_Observer_def split: option.splits Ctor.splits)

text \<open>
  C6: a dirty-check observer that \<^verbatim>\<open>observe\<close> creates with \<^verbatim>\<open>onlyReportObserved\<close> true
  keeps the key set of the target at creation, and no batch of any check cycle of its
  life holds an event for a key outside that set, whatever the heaps of the cycles are.
\<close>

theorem onlyReportObserved_hides_new_keys:
  assumes "observe has (new_Observer h) kwArgs = Inr (DirtyCheck obs)"
    and "onlyReportObserved kwArgs = Some True"
    and "target kwArgs = Some t"
    and "key \<notin> fst ` set (snapshot_of h t)"
  shows "dc_observed obs = Some (map fst (snapshot_of h t))
    \<and> (\<forall>batch \<in> set (run obs turns). \<forall>e \<in> set batch. ev_name e \<noteq> key)"
proof -
  from observe_DirtyCheck [OF assms(1,3)] obtain l where
    obs: "obs = new_DirtyCheckObserver h t l True"
    using assms(2) by auto
  have inv: "observes_only (map fst (snapshot_of h t)) obs"
    by (simp add: obs observes_only_iff new_DirtyCheckObserver_def)
  have "ev_name e \<noteq> key" if "batch \<in> set (run obs turns)" "e \<in> set batch" for batch e
    using run_observes_only [OF inv that] assms(4) by auto
  then show ?thesis
    using inv by (auto simp: observes_only_iff)
qed

lemma snapshot_of_ex: "snapshot_of ex_heap (Suc 0) = [(''x'', JString ''one'')]"
  by (simp add: snapshot_of_def ex_heap_def own_keys_def enumerable_own_def own_property_def
      Get_data_def proto_chain_def numeral_3_eq_3)

lemma snapshot_of_ex_later:
  "snapshot_of ex_later (Suc 0) = [(''x'', JNumber NaN), (''w'', JNull)]"
  by (simp add: snapshot_of_def ex_later_def ex_heap_def set_own_def own_keys_def
      enumerable_own_def own_property_def Get_data_def proto_chain_def numeral_3_eq_3)

lemma ex_observer:
  "observe (\<lambda>f. True) (new_Observer ex_heap) ex_args =
     Inr (DirtyCheck (new_DirtyCheckObserver ex_heap (Suc 0) 0 True))"
  by (simp add: observe_def observe_Ctor_def new_Observer_def ex_args_def)

lemma ex_run:
  "run (new_DirtyCheckObserver ex_heap (Suc 0) (0::nat) True) [Check ex_later, Check ex_later] =
     [[\<lparr> ev_target = Suc 0, ev_name = ''x'', ev_type = Update \<rparr>]]"
  by (simp add: new_DirtyCheckObserver_def check_def new_snapshot_def Let_def snapshot_of_ex
      snapshot_of_ex_later diff_def diff_key_def isIdentical_def)

text \<open>
  The theorem at \<open>ex_args\<close>: the key \<^verbatim>\<open>w\<close> is added after creation; two cycles deliver
  one batch, the update of \<^verbatim>\<open>x\<close>.
\<close>

theorem onlyReportObserved_hides_new_keys_witness:
  "observe (\<lambda>f. True) (new_Observer ex_heap) ex_args =
     Inr (DirtyCheck (new_DirtyCheckObserver ex_heap (Suc 0) 0 True))
   \<and> onlyReportObserved ex_args = Some True
   \<and> target ex_args = Some (Suc 0)
   \<and> ''w'' \<notin> fst ` set (snapshot_of ex_heap (Suc 0))
   \<and> ''w'' \<in> fst ` set (snapshot_of ex_later (Suc 0))
   \<and> run (new_DirtyCheckObserver ex_heap (Suc 0) (0::nat) True) [Check ex_later, Check ex_later] =
       [[\<lparr> ev_target = Suc 0, ev_name = ''x'', ev_type = Update \<rparr>]]
   \<and> list_all (list_all (\<lambda>e. ev_name e \<noteq> ''w''))
       (run (new_DirtyCheckObserver ex_heap (Suc 0) (0::nat) True) [Check ex_later, Check ex_later])"
proof -
  have a: "onlyReportObserved ex_args = Some True" "target ex_args = Some (Suc 0)"
    by (simp_all add: ex_args_def)
  have b: "''w'' \<notin> fst ` set (snapshot_of ex_heap (Suc 0))"
    by (simp add: snapshot_of_ex)
  have c: "''w'' \<in> fst ` set (snapshot_of ex_later (Suc 0))"
    by (simp add: snapshot_of_ex_later)
  from onlyReportObserved_hides_new_keys [OF ex_observer a b, of "[Check ex_later, Check ex_later]"]
  have "list_all (list_all (\<lambda>e. ev_name e \<noteq> ''w''))
       (run (new_DirtyCheckObserver ex_heap (Suc 0) (0::nat) True) [Check ex_later, Check ex_later])"
    by (simp add: list_all_iff)
  then show ?thesis
    using ex_observer a b c ex_run by simp
qed

text \<open>
  C7: a check cycle of a dirty-check observer that is not destroyed invokes the listener
  exactly once, with the whole diff of the old snapshot against the new one, when that
  diff is not empty, and not at all when it is empty; a destroyed observer invokes
  nothing; no batch delivered in the life of an observer is empty.
\<close>

theorem check_invokes_listener_once:
  "(\<not> dc_destroyed obs \<longrightarrow>
      snd (check obs h) =
        (if diff (dc_target obs) (dc_snapshot obs) (new_snapshot obs h) = [] then []
         else [diff (dc_target obs) (dc_snapshot obs) (new_snapshot obs h)]))
   \<and> (dc_destroyed obs \<longrightarrow> snd (check obs h) = [])
   \<and> (\<forall>batch \<in> set (run obs turns). batch \<noteq> [])"
  using run_nonempty [of _ obs turns]
  by (auto simp: check_def Let_def)

text \<open>The theorem at the observer of \<open>ex_args\<close>: a change, no change, and after destroy.\<close>

theorem check_invokes_listener_once_witness:
  "\<not> dc_destroyed (new_DirtyCheckObserver ex_heap (Suc 0) (0::nat) True)
   \<and> snd (check (new_DirtyCheckObserver ex_heap (Suc 0) (0::nat) True) ex_later) =
       [[\<lparr> ev_target = Suc 0, ev_name = ''x'', ev_type = Update \<rparr>]]
   \<and> snd (check (new_DirtyCheckObserver ex_heap (Suc 0) (0::nat) True) ex_heap) = []
   \<and> snd (check (destroy_observer (new_DirtyCheckObserver ex_heap (Suc 0) (0::nat) True)) ex_later) = []"
proof -
  let ?obs = "new_DirtyCheckObserver ex_heap (Suc 0) (0::nat) True"
  have live: "\<not> dc_destroyed ?obs"
    by (simp add: new_DirtyCheckObserver_def)
  have dead: "dc_destroyed (destroy_observer ?obs)"
    by (simp add: destroy_observer_def)
  have d1: "diff (dc_target ?obs) (dc_snapshot ?obs) (new_snapshot ?obs ex_later) =
      [\<lparr> ev_target = Suc 0, ev_name = ''x'', ev_type = Update \<rparr>]"
    by (simp add: new_DirtyCheckObserver_def new_snapshot_def snapshot_of_ex snapshot_of_ex_later
        diff_def diff_key_def isIdentical_def)
  have d2: "diff (dc_target ?obs) (dc_snapshot ?obs) (new_snapshot ?obs ex_heap) = []"
    by (simp add: new_DirtyCheckObserver_def new_snapshot_def snapshot_of_ex
        diff_def diff_key_def isIdentical_def)
  show ?thesis
    using check_invokes_listener_once [of ?obs ex_later "[]"]
      check_invokes_listener_once [of ?obs ex_heap "[]"]
      check_invokes_listener_once [of "destroy_observer ?obs" ex_later "[]"]
      live dead d1 d2
    by simp
qed

end
